theory Spec2Isabelle
  imports Complex_Main "HOL-Library.Log_Nat"
begin

section \<open>JavaScript numbers\<close>

text \<open>
  The TypeScript type \<open>number\<close> is an IEEE 754 binary64 value. The model keeps the
  three non-finite values apart from the finite ones, so that a division by zero is a
  value (as in JavaScript) and not an error. A finite value is the real number it
  denotes; the result of an operation on finite values is the exact result rounded to the
  nearest double, ties to even, and an overflow gives an infinity, as IEEE 754 prescribes
  for \<open>+\<close>, \<open>-\<close> and \<open>/\<close>. Only the sign of zero is not modelled (a zero divisor
  counts as \<open>+0\<close>).

  \<open>binade x\<close> is the exponent e with 2^e \<le> |x| < 2^(e+1), for x \<noteq> 0. The doubles of
  that binade are the multiples of 2^(e-52); below 2^-1022 (the subnormal range) they are
  the multiples of 2^-1074. A rounded value of magnitude 2^1024 or more is an infinity.
\<close>

datatype jsnum = Num real | PosInf | NegInf | NaN

definition pow2 :: "int \<Rightarrow> real" where
  "pow2 k = (if 0 \<le> k then 2 ^ nat k else 1 / 2 ^ nat (- k))"

definition binade :: "real \<Rightarrow> int" where
  "binade x =
     (if 1 \<le> \<bar>x\<bar> then bitlen \<lfloor>\<bar>x\<bar>\<rfloor> - 1 else - bitlen (\<lceil>1 / \<bar>x\<bar>\<rceil> - 1))"

definition round_even :: "real \<Rightarrow> int" where
  "round_even q =
     (let f = \<lfloor>q\<rfloor>; r = q - of_int f
      in if r < 1 / 2 then f else if 1 / 2 < r then f + 1 else if even f then f else f + 1)"

definition round_double :: "real \<Rightarrow> jsnum" where
  "round_double x =
     (if x = 0 then Num 0
      else let u = pow2 (max (binade x) (- 1022) - 52);
               y = of_int (round_even (x / u)) * u
           in if y \<noteq> 0 \<and> 1024 \<le> binade y then (if 0 < y then PosInf else NegInf)
              else Num y)"

fun js_neg :: "jsnum \<Rightarrow> jsnum" where
  "js_neg (Num a) = Num (- a)"
| "js_neg PosInf = NegInf"
| "js_neg NegInf = PosInf"
| "js_neg NaN = NaN"

fun js_add :: "jsnum \<Rightarrow> jsnum \<Rightarrow> jsnum" where
  "js_add (Num a) (Num b) = round_double (a + b)"
| "js_add NaN _ = NaN"
| "js_add _ NaN = NaN"
| "js_add PosInf NegInf = NaN"
| "js_add NegInf PosInf = NaN"
| "js_add PosInf _ = PosInf"
| "js_add _ PosInf = PosInf"
| "js_add NegInf _ = NegInf"
| "js_add _ NegInf = NegInf"

definition js_sub :: "jsnum \<Rightarrow> jsnum \<Rightarrow> jsnum" where
  "js_sub a b = js_add a (js_neg b)"

fun js_div :: "jsnum \<Rightarrow> jsnum \<Rightarrow> jsnum" where
  "js_div (Num a) (Num b) =
     (if b \<noteq> 0 then round_double (a / b)
      else if 0 < a then PosInf else if a < 0 then NegInf else NaN)"
| "js_div NaN _ = NaN"
| "js_div _ NaN = NaN"
| "js_div (Num a) _ = Num 0"
| "js_div PosInf (Num b) = (if b < 0 then NegInf else PosInf)"
| "js_div NegInf (Num b) = (if b < 0 then PosInf else NegInf)"
| "js_div _ _ = NaN"

section \<open>Objects, subscriptions and the call log\<close>

text \<open>
  Objects are referred to by reference. A subscription is what
  \<open>subscribe(this, this.onPositionChanged.bind(this))\<close> registers: the context object
  and a member function of \<open>Renderable\<close> bound to its receiver.
\<close>

type_synonym ref = nat

datatype callback = OnPositionChanged | OnScaleChanged | OnRotationChanged

record subscription =
  sub_context :: ref
  sub_target :: ref
  sub_callback :: callback

datatype component = Position | Scale | Rotation

text \<open>
  The collaborators of \<open>Renderable\<close> (the rendering backend and \<open>Transform\<close>) write
  what is asked of them into a log, in the order of the calls.
\<close>

datatype event =
    ContainerCreated ref
  | TransformCreated ref
  | Subscribed ref component subscription
  | ContainerDestroyed ref
  | TransformDestroyed ref
  | Invoked ref callback

text \<open>
  The backend container (\<open>PIXI.Container\<close>, an external library): the fields of its
  own transform that \<open>Renderable\<close> writes, its measured height, and whether it was
  destroyed.
\<close>

record pixi_container =
  pixi_x :: jsnum
  pixi_y :: jsnum
  pixi_scale_x :: jsnum
  pixi_scale_y :: jsnum
  pixi_rotation :: jsnum
  pixi_height :: jsnum
  pixi_destroyed :: bool

text \<open>
  Modelled from the spec: the class \<open>Transform\<close> (engine/math/transform.ts) and its
  vector components are not among the sources. The spec gives a Transform three
  observable components, position, scale and rotation; the code reads their \<open>x\<close>,
  \<open>y\<close> and \<open>z\<close> and subscribes to their \<open>onComponentChanged\<close>.
\<close>

record vector =
  vec_x :: jsnum
  vec_y :: jsnum
  vec_z :: jsnum
  onComponentChanged :: "subscription list"

record transform =
  position :: vector
  scale :: vector
  rotation :: vector
  transform_destroyed :: bool

text \<open>The fields of \<open>Renderable\<close>: one container and one transform, both owned.\<close>

record renderable =
  container :: pixi_container
  transform :: transform

section \<open>The game's data\<close>

text \<open>
  The configuration records (\<open>VentureBusinessData\<close>, \<open>ButtonData\<close>) are declared
  outside the sources; the fields below are the ones the bank reads. \<open>labels\<close> may be
  absent in the base button data.
\<close>

record venture_business_data =
  business_name :: string
  business_icon :: string
  managerCost :: jsnum

record button_data =
  button_name :: string
  labels :: "string list option"

record bank_data =
  baseManagerButtonData :: button_data
  businesses :: "venture_business_data list"

text \<open>The enum \<open>PurchaseMode\<close> and its values (\<open>MAX\<close> is written \<open>MAXIMUM\<close>).\<close>

datatype PurchaseMode = ONE | TEN | HUNDRED | MAXIMUM

fun PurchaseMode_value :: "PurchaseMode \<Rightarrow> int" where
  "PurchaseMode_value ONE = 1"
| "PurchaseMode_value TEN = 10"
| "PurchaseMode_value HUNDRED = 100"
| "PurchaseMode_value MAXIMUM = - 1"

text \<open>
  Modelled from the spec: \<open>Observable<T>\<close> (engine/core/observable.ts) is not among
  the sources. It holds a current value; every \<open>setValue\<close> or \<open>adjust\<close> call
  notifies all current subscribers once before it returns, also when the value is
  unchanged, and \<open>adjust(delta)\<close> is \<open>setValue(getValue() + delta)\<close>. What the
  subscribers do is outside the sources; the model counts the notification rounds.
\<close>

record 'a observable =
  ob_value :: 'a
  ob_notifications :: nat

definition Observable :: "'a \<Rightarrow> 'a observable" where
  "Observable v = \<lparr>ob_value = v, ob_notifications = 0\<rparr>"

definition getValue :: "'a observable \<Rightarrow> 'a" where
  "getValue ob = ob_value ob"

definition setValue :: "'a \<Rightarrow> 'a observable \<Rightarrow> 'a observable" where
  "setValue v ob = ob\<lparr>ob_value := v, ob_notifications := ob_notifications ob + 1\<rparr>"

definition adjust :: "jsnum \<Rightarrow> jsnum observable \<Rightarrow> jsnum observable" where
  "adjust delta ob = setValue (js_add (getValue ob) delta) ob"

text \<open>
  The display components the bank creates, by the arguments it passes: a text component
  has a name, a text (a string, a number or the balance observable of a bank), a format
  and a position; a sprite component has a name and an asset name. Style arguments are
  presentation only and are left out.
\<close>

datatype TextFormatMode = CURRENCY

datatype text_source = TextString string | TextNumber jsnum | TextObservable ref

datatype display_component =
    TextComponent string text_source "TextFormatMode option" "(jsnum \<times> jsnum) option"
  | SpriteComponent string string

fun component_name :: "display_component \<Rightarrow> string" where
  "component_name (TextComponent n _ _ _) = n"
| "component_name (SpriteComponent n _) = n"

text \<open>
  Modelled from the spec: the class \<open>Actor\<close> (engine/core/actor.ts) is not among the
  sources. An actor is a Renderable that owns an ordered collection of child actors and
  a mapping of named display components.
\<close>

record actor =
  displayComponents :: "string \<rightharpoonup> ref"
  children :: "ref list"

text \<open>The fields that \<open>VentureBank\<close> adds, with the \<open>_objectData\<close> it was given.\<close>

record bank =
  objectData :: bank_data
  balance :: "jsnum observable"
  purchaseMode :: "PurchaseMode observable"
  globalProfitMultiplier :: "jsnum observable"
  managerButtons :: "string \<rightharpoonup> ref"

text \<open>
  The handlers subscribed to \<open>GameEvent.ON_CYCLE_COMPLETE\<close>: the arrow function of the
  bank's constructor, closed over the bank.
\<close>

datatype handler = OnCycleComplete ref

text \<open>The payload of the event: the business, of which the handler reads the profit.\<close>

record venture_business =
  profit :: jsnum

datatype js_error = TypeError

text \<open>
  The state of the program: every Renderable by reference, the call log, the actors,
  buttons, display components and banks by reference, the subscribers of
  \<open>GameEvent.ON_CYCLE_COMPLETE\<close> (context and handler, in subscription order), the
  key-value store \<open>Engine.localStorage\<close>, \<open>window.innerHeight\<close>, and the next
  reference that \<open>new\<close> hands out.
\<close>

record world =
  objs :: "ref \<rightharpoonup> renderable"
  trace :: "event list"
  actors :: "ref \<rightharpoonup> actor"
  buttons :: "ref \<rightharpoonup> button_data"
  components :: "ref \<rightharpoonup> display_component"
  banks :: "ref \<rightharpoonup> bank"
  ON_CYCLE_COMPLETE :: "(ref \<times> handler) list"
  localStorage :: "string \<rightharpoonup> jsnum"
  innerHeight :: jsnum
  next_ref :: ref

text \<open>
  A TypeScript reference always denotes an object. Where an operation of the model is
  given a reference that the state holds no object for, it leaves the state as it is;
  where \<open>load\<close> must read a field of such an object it fails as for \<open>undefined\<close>.
\<close>

definition emit :: "event \<Rightarrow> world \<Rightarrow> world" where
  "emit e w = w\<lparr>trace := trace w @ [e]\<rparr>"

definition upd_obj :: "ref \<Rightarrow> (renderable \<Rightarrow> renderable) \<Rightarrow> world \<Rightarrow> world" where
  "upd_obj r f w = (case objs w r of None \<Rightarrow> w | Some R \<Rightarrow> w\<lparr>objs := (objs w)(r \<mapsto> f R)\<rparr>)"

fun get_component :: "component \<Rightarrow> transform \<Rightarrow> vector" where
  "get_component Position t = position t"
| "get_component Scale t = scale t"
| "get_component Rotation t = rotation t"

fun map_component :: "component \<Rightarrow> (vector \<Rightarrow> vector) \<Rightarrow> transform \<Rightarrow> transform" where
  "map_component Position f t = t\<lparr>position := f (position t)\<rparr>"
| "map_component Scale f t = t\<lparr>scale := f (scale t)\<rparr>"
| "map_component Rotation f t = t\<lparr>rotation := f (rotation t)\<rparr>"

text \<open>
  \<open>new PIXI.Container()\<close>: the backend's fresh container (identity transform, nothing
  measured yet).
\<close>

definition PIXI_Container :: pixi_container where
  "PIXI_Container =
     \<lparr>pixi_x = Num 0, pixi_y = Num 0, pixi_scale_x = Num 1, pixi_scale_y = Num 1,
      pixi_rotation = Num 0, pixi_height = Num 0, pixi_destroyed = False\<rparr>"

text \<open>
  Modelled from the spec: \<open>new Transform()\<close>, which is not among the sources. A fresh
  transform has no subscribers; its values are taken to be the identity transform.
\<close>

definition Transform_new :: transform where
  "Transform_new =
     \<lparr>position = \<lparr>vec_x = Num 0, vec_y = Num 0, vec_z = Num 0, onComponentChanged = []\<rparr>,
      scale = \<lparr>vec_x = Num 1, vec_y = Num 1, vec_z = Num 1, onComponentChanged = []\<rparr>,
      rotation = \<lparr>vec_x = Num 0, vec_y = Num 0, vec_z = Num 0, onComponentChanged = []\<rparr>,
      transform_destroyed = False\<rparr>"

text \<open>
  The two \<open>new\<close> expressions of the constructor of \<open>Renderable\<close>, for the object
  \<open>owner\<close>: each hands out a fresh value and is logged.
\<close>

definition new_PIXI_Container :: "ref \<Rightarrow> world \<Rightarrow> pixi_container \<times> world" where
  "new_PIXI_Container owner w = (PIXI_Container, emit (ContainerCreated owner) w)"

definition new_Transform :: "ref \<Rightarrow> world \<Rightarrow> transform \<times> world" where
  "new_Transform owner w = (Transform_new, emit (TransformCreated owner) w)"

text \<open>
  Modelled from the spec: \<open>onComponentChanged.subscribe(context, callback)\<close> of a
  component of the transform of object \<open>r\<close>. Subscribers are kept in subscription
  order.
\<close>

definition subscribe :: "ref \<Rightarrow> component \<Rightarrow> subscription \<Rightarrow> world \<Rightarrow> world" where
  "subscribe r c s w =
     emit (Subscribed r c s)
       (upd_obj r (\<lambda>R. R\<lparr>transform :=
          map_component c (\<lambda>v. v\<lparr>onComponentChanged := onComponentChanged v @ [s]\<rparr>)
            (transform R)\<rparr>) w)"

text \<open>\<open>this.container.destroy()\<close>, of the backend.\<close>

definition Container_destroy :: "ref \<Rightarrow> world \<Rightarrow> world" where
  "Container_destroy r w =
     emit (ContainerDestroyed r)
       (upd_obj r (\<lambda>R. R\<lparr>container := (container R)\<lparr>pixi_destroyed := True\<rparr>\<rparr>) w)"

text \<open>
  Modelled from the spec: \<open>Transform.destroy()\<close> releases the subscriber lists of all
  three components.
\<close>

definition Transform_destroy :: "ref \<Rightarrow> world \<Rightarrow> world" where
  "Transform_destroy r w =
     emit (TransformDestroyed r)
       (upd_obj r (\<lambda>R. R\<lparr>transform :=
          (map_component Position (\<lambda>v. v\<lparr>onComponentChanged := []\<rparr>)
            (map_component Scale (\<lambda>v. v\<lparr>onComponentChanged := []\<rparr>)
              (map_component Rotation (\<lambda>v. v\<lparr>onComponentChanged := []\<rparr>)
                (transform R))))\<lparr>transform_destroyed := True\<rparr>\<rparr>) w)"

section \<open>Renderable (engine/core/renderable.ts)\<close>

text \<open>The constructor, run on the new object \<open>this\<close>.\<close>

definition Renderable_constructor :: "ref \<Rightarrow> world \<Rightarrow> world" where
  "Renderable_constructor this w =
     (let (c, w1) = new_PIXI_Container this w;
          (t, w2) = new_Transform this w1;
          w3 = w2\<lparr>objs := (objs w2)(this \<mapsto> \<lparr>container = c, transform = t\<rparr>)\<rparr>;
          w4 = subscribe this Position
                 \<lparr>sub_context = this, sub_target = this, sub_callback = OnPositionChanged\<rparr> w3;
          w5 = subscribe this Scale
                 \<lparr>sub_context = this, sub_target = this, sub_callback = OnScaleChanged\<rparr> w4;
          w6 = subscribe this Rotation
                 \<lparr>sub_context = this, sub_target = this, sub_callback = OnRotationChanged\<rparr> w5
      in w6)"

definition Renderable_destroy :: "ref \<Rightarrow> world \<Rightarrow> world" where
  "Renderable_destroy this w = Transform_destroy this (Container_destroy this w)"

definition onPositionChanged :: "ref \<Rightarrow> world \<Rightarrow> world" where
  "onPositionChanged this w =
     (let w1 = upd_obj this (\<lambda>R. R\<lparr>container :=
                 (container R)\<lparr>pixi_x := vec_x (position (transform R))\<rparr>\<rparr>) w;
          w2 = upd_obj this (\<lambda>R. R\<lparr>container :=
                 (container R)\<lparr>pixi_y := vec_y (position (transform R))\<rparr>\<rparr>) w1
      in w2)"

definition onScaleChanged :: "ref \<Rightarrow> world \<Rightarrow> world" where
  "onScaleChanged this w =
     (let w1 = upd_obj this (\<lambda>R. R\<lparr>container :=
                 (container R)\<lparr>pixi_scale_x := vec_x (scale (transform R))\<rparr>\<rparr>) w;
          w2 = upd_obj this (\<lambda>R. R\<lparr>container :=
                 (container R)\<lparr>pixi_scale_y := vec_y (scale (transform R))\<rparr>\<rparr>) w1
      in w2)"

definition onRotationChanged :: "ref \<Rightarrow> world \<Rightarrow> world" where
  "onRotationChanged this w =
     upd_obj this (\<lambda>R. R\<lparr>container :=
       (container R)\<lparr>pixi_rotation := vec_z (rotation (transform R))\<rparr>\<rparr>) w"

section \<open>Change notification\<close>

text \<open>
  Modelled from the spec: a changed component calls its subscribers synchronously, in
  subscription order, once each, whether or not the value differs from the old one.
  A call of a bound callback is logged and then runs that member of \<open>Renderable\<close>.
\<close>

definition invoke :: "subscription \<Rightarrow> world \<Rightarrow> world" where
  "invoke s w =
     (let w1 = emit (Invoked (sub_target s) (sub_callback s)) w
      in case sub_callback s of
           OnPositionChanged \<Rightarrow> onPositionChanged (sub_target s) w1
         | OnScaleChanged \<Rightarrow> onScaleChanged (sub_target s) w1
         | OnRotationChanged \<Rightarrow> onRotationChanged (sub_target s) w1)"

definition notify :: "subscription list \<Rightarrow> world \<Rightarrow> world" where
  "notify subs w = fold invoke subs w"

text \<open>
  Modelled from the spec: one change of a component of the transform of object \<open>r\<close>.
  The new values are stored, then the subscribers of that component are notified.
  Every setter of the component (\<open>x = v\<close>, \<open>y = v\<close>, \<open>set(...)\<close>) is an
  instance, with \<open>f\<close> the assignment it makes.
\<close>

definition assign :: "(jsnum \<times> jsnum \<times> jsnum \<Rightarrow> jsnum \<times> jsnum \<times> jsnum) \<Rightarrow> vector \<Rightarrow> vector" where
  "assign f v =
     (case f (vec_x v, vec_y v, vec_z v) of (a, b, d) \<Rightarrow> v\<lparr>vec_x := a, vec_y := b, vec_z := d\<rparr>)"

definition change :: "ref \<Rightarrow> component \<Rightarrow> (jsnum \<times> jsnum \<times> jsnum \<Rightarrow> jsnum \<times> jsnum \<times> jsnum) \<Rightarrow> world \<Rightarrow> world" where
  "change r c f w =
     (case objs w r of
        None \<Rightarrow> w
      | Some R \<Rightarrow>
          (let w1 = upd_obj r (\<lambda>R. R\<lparr>transform := map_component c (assign f) (transform R)\<rparr>) w
           in notify (onComponentChanged (get_component c (transform R))) w1))"

text \<open>
  A Renderable is wired when the subscribers of its transform are the three that its
  constructor registers. \<open>empty_world\<close> is the state before any object exists.
\<close>

definition wired :: "ref \<Rightarrow> renderable \<Rightarrow> bool" where
  "wired r R \<longleftrightarrow>
     onComponentChanged (position (transform R)) =
       [\<lparr>sub_context = r, sub_target = r, sub_callback = OnPositionChanged\<rparr>] \<and>
     onComponentChanged (scale (transform R)) =
       [\<lparr>sub_context = r, sub_target = r, sub_callback = OnScaleChanged\<rparr>] \<and>
     onComponentChanged (rotation (transform R)) =
       [\<lparr>sub_context = r, sub_target = r, sub_callback = OnRotationChanged\<rparr>]"

definition empty_world :: world where
  "empty_world =
     \<lparr>objs = Map.empty, trace = [], actors = Map.empty, buttons = Map.empty,
      components = Map.empty, banks = Map.empty, ON_CYCLE_COMPLETE = [],
      localStorage = Map.empty, innerHeight = Num 0, next_ref = 0\<rparr>"

section \<open>Collaborators of the bank\<close>

text \<open>
  Modelled from the spec: the constructor of \<open>Actor\<close>, a Renderable subtype, starts
  with no display components and no children.
\<close>

definition Actor_constructor :: "ref \<Rightarrow> world \<Rightarrow> world" where
  "Actor_constructor this w =
     (let w1 = Renderable_constructor this w
      in w1\<lparr>actors := (actors w1)(this \<mapsto> \<lparr>displayComponents = Map.empty, children = []\<rparr>)\<rparr>)"

text \<open>Assignments to the fields of an actor and of a bank.\<close>

definition upd_actor :: "ref \<Rightarrow> (actor \<Rightarrow> actor) \<Rightarrow> world \<Rightarrow> world" where
  "upd_actor r f w =
     (case actors w r of None \<Rightarrow> w | Some A \<Rightarrow> w\<lparr>actors := (actors w)(r \<mapsto> f A)\<rparr>)"

definition upd_bank :: "ref \<Rightarrow> (bank \<Rightarrow> bank) \<Rightarrow> world \<Rightarrow> world" where
  "upd_bank r f w =
     (case banks w r of None \<Rightarrow> w | Some bk \<Rightarrow> w\<lparr>banks := (banks w)(r \<mapsto> f bk)\<rparr>)"

text \<open>
  Modelled from the spec: \<open>addDisplayComponent\<close> stores a component under its name,
  \<open>getDisplayComponent\<close> looks a name up, \<open>addChild\<close> appends to the children.
\<close>

definition addDisplayComponent :: "ref \<Rightarrow> ref \<Rightarrow> world \<Rightarrow> world" where
  "addDisplayComponent this c w =
     (case components w c of
        None \<Rightarrow> w
      | Some d \<Rightarrow>
          upd_actor this (\<lambda>A. A\<lparr>displayComponents := (displayComponents A)(component_name d \<mapsto> c)\<rparr>) w)"

definition getDisplayComponent :: "ref \<Rightarrow> string \<Rightarrow> world \<Rightarrow> ref option" where
  "getDisplayComponent this n w =
     (case actors w this of None \<Rightarrow> None | Some A \<Rightarrow> displayComponents A n)"

definition addChild :: "ref \<Rightarrow> ref \<Rightarrow> world \<Rightarrow> world" where
  "addChild this c w = upd_actor this (\<lambda>A. A\<lparr>children := children A @ [c]\<rparr>) w"

text \<open>
  Modelled from the spec: \<open>new TextComponent(...)\<close> and \<open>new SpriteComponent(...)\<close>.
  A display component is a Renderable; the new object takes the next reference.
\<close>

definition new_component :: "display_component \<Rightarrow> world \<Rightarrow> ref \<times> world" where
  "new_component d w =
     (let r = next_ref w;
          w1 = Renderable_constructor r (w\<lparr>next_ref := r + 1\<rparr>)
      in (r, w1\<lparr>components := (components w1)(r \<mapsto> d)\<rparr>))"

text \<open>
  Modelled from the spec: \<open>new Button(data)\<close>. A button is an actor that keeps the
  data it was given.
\<close>

definition new_Button :: "button_data \<Rightarrow> world \<Rightarrow> ref \<times> world" where
  "new_Button d w =
     (let r = next_ref w;
          w1 = Actor_constructor r (w\<lparr>next_ref := r + 1\<rparr>)
      in (r, w1\<lparr>buttons := (buttons w1)(r \<mapsto> d)\<rparr>))"

text \<open>
  Modelled from the spec: \<open>GameEvent.ON_CYCLE_COMPLETE.subscribe(context, handler)\<close>.
  Subscribers are kept in subscription order.
\<close>

definition GameEvent_subscribe :: "ref \<Rightarrow> handler \<Rightarrow> world \<Rightarrow> world" where
  "GameEvent_subscribe ctx h w = w\<lparr>ON_CYCLE_COMPLETE := ON_CYCLE_COMPLETE w @ [(ctx, h)]\<rparr>"

text \<open>
  Modelled from the spec: the key-value store. \<open>setValue(key, value)\<close> stores a value
  under a key; \<open>getNumber(key, default)\<close> returns the stored value, or the default
  when the key is absent.
\<close>

definition LocalStorage_setValue :: "string \<Rightarrow> jsnum \<Rightarrow> world \<Rightarrow> world" where
  "LocalStorage_setValue k v w = w\<lparr>localStorage := (localStorage w)(k \<mapsto> v)\<rparr>"

definition LocalStorage_getNumber :: "string \<Rightarrow> jsnum \<Rightarrow> world \<Rightarrow> jsnum" where
  "LocalStorage_getNumber k d w = (case localStorage w k of None \<Rightarrow> d | Some v \<Rightarrow> v)"

section \<open>VentureBank (game/gameActors/ventureBank.ts)\<close>

text \<open>The body of the loop of \<open>createManagerButtons\<close>, for one business.\<close>

definition createManagerButton :: "ref \<Rightarrow> venture_business_data \<Rightarrow> world \<Rightarrow> world" where
  "createManagerButton this business w =
     (case banks w this of
        None \<Rightarrow> w
      | Some bk \<Rightarrow>
          (let base = baseManagerButtonData (objectData bk);
               managerButtonData = base
                 \<lparr>button_name := business_name business,
                  labels := Some (case labels base of None \<Rightarrow> [] | Some l \<Rightarrow> l)\<rparr>;
               (managerButton, w1) = new_Button managerButtonData w;
               (iconSprite, w2) = new_component
                 (SpriteComponent (business_name business @ ''ManagerIcon'')
                    (business_icon business)) w1;
               w3 = addDisplayComponent managerButton iconSprite w2;
               (title, w4) = new_component
                 (TextComponent (business_name business @ ''ManagerButton'')
                    (TextString (''Buy '' @ business_name business @ '' Manager''))
                    None (Some (Num 200, Num 10))) w3;
               w5 = addDisplayComponent managerButton title w4;
               (price, w6) = new_component
                 (TextComponent (business_name business @ ''ManagerPrice'')
                    (TextNumber (managerCost business))
                    (Some CURRENCY) (Some (Num 200, Num 70))) w5;
               w7 = addDisplayComponent managerButton price w6;
               w8 = upd_bank this (\<lambda>b. b\<lparr>managerButtons :=
                      (managerButtons b)(business_name business \<mapsto> managerButton)\<rparr>) w7;
               w9 = addChild this managerButton w8
           in w9))"

definition createManagerButtons :: "ref \<Rightarrow> world \<Rightarrow> world" where
  "createManagerButtons this w =
     (case banks w this of
        None \<Rightarrow> w
      | Some bk \<Rightarrow> fold (createManagerButton this) (businesses (objectData bk)) w)"

text \<open>The arrow function subscribed to \<open>ON_CYCLE_COMPLETE\<close>.\<close>

fun run_handler :: "handler \<Rightarrow> venture_business \<Rightarrow> world \<Rightarrow> world" where
  "run_handler (OnCycleComplete this) business w =
     upd_bank this (\<lambda>b. b\<lparr>balance := adjust (profit business) (balance b)\<rparr>) w"

text \<open>
  Modelled from the spec: \<open>GameEvent.ON_CYCLE_COMPLETE.publish(business)\<close> calls every
  subscribed handler once, in subscription order, with the business.
\<close>

definition publish :: "venture_business \<Rightarrow> world \<Rightarrow> world" where
  "publish business w = fold (\<lambda>(ctx, h). run_handler h business) (ON_CYCLE_COMPLETE w) w"

text \<open>
  The constructor. \<open>super(actorData)\<close> is the constructor of \<open>Actor\<close>; the bank
  keeps the \<open>_objectData\<close> it was given. \<open>balanceText.setStyle(...)\<close> is
  presentation only and is left out. \<open>position.set(10, 0)\<close> is one change of the
  position that assigns x and y.
\<close>

definition VentureBank_constructor :: "ref \<Rightarrow> bank_data \<Rightarrow> world \<Rightarrow> world" where
  "VentureBank_constructor this actorData w =
     (let w1 = Actor_constructor this w;
          w2 = w1\<lparr>banks := (banks w1)(this \<mapsto>
                 \<lparr>objectData = actorData,
                  balance = Observable (Num 0),
                  purchaseMode = Observable ONE,
                  globalProfitMultiplier = Observable (Num 1),
                  managerButtons = Map.empty\<rparr>)\<rparr>;
          (balanceText, w3) = new_component
            (TextComponent ''balanceText'' (TextObservable this) (Some CURRENCY) None) w2;
          w4 = change balanceText Position (\<lambda>(x, y, z). (Num 10, Num 0, z)) w3;
          w5 = addDisplayComponent this balanceText w4;
          w6 = upd_bank this (\<lambda>b. b\<lparr>balance := adjust (Num 0) (balance b)\<rparr>) w5;
          w7 = GameEvent_subscribe this (OnCycleComplete this) w6;
          w8 = createManagerButtons this w7
      in w8)"

text \<open>\<open>new VentureBank(actorData)\<close>: the new bank takes the next reference.\<close>

definition new_VentureBank :: "bank_data \<Rightarrow> world \<Rightarrow> ref \<times> world" where
  "new_VentureBank actorData w =
     (let this = next_ref w
      in (this, VentureBank_constructor this actorData (w\<lparr>next_ref := this + 1\<rparr>)))"

text \<open>
  \<open>load\<close>, \<open>save\<close> and \<open>restore\<close>. The inherited \<open>Actor.load\<close>,
  \<open>Actor.save\<close> and \<open>Actor.restore\<close> are not among the sources: each method takes
  the inherited one as its first argument and calls it first, as the code does. A missing
  dictionary entry or array element is \<open>undefined\<close>, and reading a property of it
  raises a TypeError. \<open>layout\<close> is the loop of \<open>load\<close>;
  \<open>scale.set(scaleFactor)\<close> is one change of the scale that assigns the factor to every
  axis (modelled from the spec: a uniform scale factor), \<open>position.y = spawnHeight\<close>
  one change of the position that assigns y.
\<close>

definition managerButton_of :: "ref \<Rightarrow> string \<Rightarrow> world \<Rightarrow> ref option" where
  "managerButton_of this n w =
     (case banks w this of None \<Rightarrow> None | Some bk \<Rightarrow> managerButtons bk n)"

fun layout :: "ref \<Rightarrow> jsnum \<Rightarrow> jsnum \<Rightarrow> venture_business_data list \<Rightarrow> jsnum \<Rightarrow> world
    \<Rightarrow> js_error + world" where
  "layout this scaleFactor heightPerButton [] spawnHeight w = Inr w"
| "layout this scaleFactor heightPerButton (business # rest) spawnHeight w =
     (case managerButton_of this (business_name business) w of
        None \<Rightarrow> Inl TypeError
      | Some m \<Rightarrow>
          (let w1 = change m Scale (\<lambda>_. (scaleFactor, scaleFactor, scaleFactor)) w
           in case managerButton_of this (business_name business) w1 of
                None \<Rightarrow> Inl TypeError
              | Some m' \<Rightarrow>
                  (let w2 = change m' Position (\<lambda>(x, y, z). (x, spawnHeight, z)) w1
                   in layout this scaleFactor heightPerButton rest
                        (js_add spawnHeight heightPerButton) w2)))"

definition load :: "(ref \<Rightarrow> world \<Rightarrow> world) \<Rightarrow> ref \<Rightarrow> world \<Rightarrow> js_error + world" where
  "load Actor_load this w =
     (let w1 = Actor_load this w
      in case banks w1 this of
           None \<Rightarrow> Inl TypeError
         | Some bk \<Rightarrow>
             (let bs = businesses (objectData bk)
              in case getDisplayComponent this ''balanceText'' w1 of
                   None \<Rightarrow> Inl TypeError
                 | Some balanceText \<Rightarrow>
                     (case objs w1 balanceText of
                        None \<Rightarrow> Inl TypeError
                      | Some T \<Rightarrow>
                          (let startingHeight =
                                 js_add (vec_y (position (transform T))) (pixi_height (container T));
                               availableRoom = js_sub (innerHeight w1) startingHeight;
                               heightPerButton = js_div availableRoom (Num (real (length bs)))
                           in case bs of
                                [] \<Rightarrow> Inl TypeError
                              | b0 # _ \<Rightarrow>
                                  (case managerButtons bk (business_name b0) of
                                     None \<Rightarrow> Inl TypeError
                                   | Some m0 \<Rightarrow>
                                       (case objs w1 m0 of
                                          None \<Rightarrow> Inl TypeError
                                        | Some M0 \<Rightarrow>
                                            (let scaleFactor =
                                                   js_div heightPerButton (pixi_height (container M0))
                                             in layout this scaleFactor heightPerButton bs
                                                  startingHeight w1)))))))"

definition save :: "(ref \<Rightarrow> world \<Rightarrow> world) \<Rightarrow> ref \<Rightarrow> world \<Rightarrow> world" where
  "save Actor_save this w =
     (let w1 = Actor_save this w
      in case banks w1 this of
           None \<Rightarrow> w1
         | Some bk \<Rightarrow>
             (let w2 = LocalStorage_setValue ''Balance'' (getValue (balance bk)) w1;
                  w3 = LocalStorage_setValue ''GlobalProfitMultiplier''
                         (getValue (globalProfitMultiplier bk)) w2
              in w3))"

definition restore :: "(ref \<Rightarrow> world \<Rightarrow> world) \<Rightarrow> ref \<Rightarrow> world \<Rightarrow> world" where
  "restore Actor_restore this w =
     (let w1 = Actor_restore this w;
          w2 = upd_bank this (\<lambda>b. b\<lparr>balance :=
                 setValue (LocalStorage_getNumber ''Balance'' (Num 0) w1) (balance b)\<rparr>) w1;
          w3 = upd_bank this (\<lambda>b. b\<lparr>globalProfitMultiplier :=
                 setValue (LocalStorage_getNumber ''GlobalProfitMultiplier'' (Num 1) w2)
                   (globalProfitMultiplier b)\<rparr>) w2
      in w3)"

section \<open>Abbreviations and scenarios\<close>

text \<open>The data of the button that \<open>createManagerButtons\<close> builds for a business.\<close>

definition button_for :: "button_data \<Rightarrow> venture_business_data \<Rightarrow> button_data" where
  "button_for base business = base
     \<lparr>button_name := business_name business,
      labels := Some (case labels base of None \<Rightarrow> [] | Some l \<Rightarrow> l)\<rparr>"

text \<open>
  The references of the manager buttons when the first is \<open>n\<close>: each business takes
  four references (the button and its three display components).
\<close>

definition button_refs :: "ref \<Rightarrow> nat \<Rightarrow> ref list" where
  "button_refs n k = map (\<lambda>i. n + 4 * i) [0..<k]"

text \<open>The fields of a bank right after the first seven statements of its constructor.\<close>

definition initial_bank :: "bank_data \<Rightarrow> bank" where
  "initial_bank d =
     \<lparr>objectData = d,
      balance = \<lparr>ob_value = Num 0, ob_notifications = 1\<rparr>,
      purchaseMode = \<lparr>ob_value = ONE, ob_notifications = 0\<rparr>,
      globalProfitMultiplier = \<lparr>ob_value = Num 1, ob_notifications = 0\<rparr>,
      managerButtons = Map.empty\<rparr>"

text \<open>
  The Renderable that the constructor of \<open>Renderable\<close> leaves at reference \<open>r\<close>, and
  the balance text as the bank's constructor leaves it, after \<open>position.set(10, 0)\<close>.
\<close>

definition constructed :: "ref \<Rightarrow> renderable" where
  "constructed r =
     \<lparr>container = PIXI_Container,
      transform = Transform_new
        \<lparr>position := (position Transform_new)\<lparr>onComponentChanged :=
            [\<lparr>sub_context = r, sub_target = r, sub_callback = OnPositionChanged\<rparr>]\<rparr>,
         scale := (scale Transform_new)\<lparr>onComponentChanged :=
            [\<lparr>sub_context = r, sub_target = r, sub_callback = OnScaleChanged\<rparr>]\<rparr>,
         rotation := (rotation Transform_new)\<lparr>onComponentChanged :=
            [\<lparr>sub_context = r, sub_target = r, sub_callback = OnRotationChanged\<rparr>]\<rparr>\<rparr>\<rparr>"

definition balanceText_object :: "ref \<Rightarrow> renderable" where
  "balanceText_object r =
     \<lparr>container = PIXI_Container\<lparr>pixi_x := Num 10, pixi_y := Num 0\<rparr>,
      transform = map_component Position (assign (\<lambda>(x, y, z). (Num 10, Num 0, z)))
                    (transform (constructed r))\<rparr>"

text \<open>
  The layout scenario of the spec: a window of height 680 and three businesses. The bank
  is created by its constructor; the inherited \<open>load\<close> of the scenario measures the
  balance text at height 80 and every other object at height 200.
\<close>

definition scenario_businesses :: "venture_business_data list" where
  "scenario_businesses =
     [\<lparr>business_name = ''Lemonade'', business_icon = ''lemon'', managerCost = Num 1000\<rparr>,
      \<lparr>business_name = ''News'', business_icon = ''paper'', managerCost = Num 15000\<rparr>,
      \<lparr>business_name = ''Cars'', business_icon = ''car'', managerCost = Num 100000\<rparr>]"

text \<open>
  A game session: a bank is created over a given key-value store and restored from it
  (here the inherited \<open>restore\<close> does nothing). \<open>duplicate_data\<close> is a configuration
  in which two businesses share a name.
\<close>

definition example_data :: bank_data where
  "example_data =
     \<lparr>baseManagerButtonData = \<lparr>button_name = ''manager'', labels = None\<rparr>,
      businesses = scenario_businesses\<rparr>"

definition session :: "(string \<rightharpoonup> jsnum) \<Rightarrow> world" where
  "session store =
     restore (\<lambda>this w. w) 0
       (snd (new_VentureBank example_data (empty_world\<lparr>localStorage := store\<rparr>)))"

definition saved_store :: "string \<rightharpoonup> jsnum" where
  "saved_store = [''Balance'' \<mapsto> Num 100, ''GlobalProfitMultiplier'' \<mapsto> Num 3]"

definition duplicate_data :: bank_data where
  "duplicate_data =
     \<lparr>baseManagerButtonData = \<lparr>button_name = ''manager'', labels = None\<rparr>,
      businesses =
        [\<lparr>business_name = ''Lemonade'', business_icon = ''lemon'', managerCost = Num 1000\<rparr>,
         \<lparr>business_name = ''News'', business_icon = ''paper'', managerCost = Num 15000\<rparr>,
         \<lparr>business_name = ''Lemonade'', business_icon = ''lemon'', managerCost = Num 2000\<rparr>]\<rparr>"

definition measure_heights :: "ref \<Rightarrow> world \<Rightarrow> world" where
  "measure_heights this w =
     w\<lparr>objs := (\<lambda>r. map_option
          (\<lambda>R. R\<lparr>container := (container R)
                  \<lparr>pixi_height :=
                     (if getDisplayComponent this ''balanceText'' w = Some r then Num 80
                      else Num 200)\<rparr>\<rparr>)
          (objs w r))\<rparr>"

definition scenario_start :: world where
  "scenario_start = snd (new_VentureBank example_data (empty_world\<lparr>innerHeight := Num 680\<rparr>))"

definition empty_data :: bank_data where
  "empty_data =
     \<lparr>baseManagerButtonData = \<lparr>button_name = ''manager'', labels = None\<rparr>, businesses = []\<rparr>"

text \<open>
  A bank created from given data in a window of a given height, and what a run of
  \<open>load\<close> leaves of an object: the y of its position and the x and y of its scale
  (nothing when \<open>load\<close> failed or the object does not exist).
\<close>

definition started :: "bank_data \<Rightarrow> jsnum \<Rightarrow> world" where
  "started d H = snd (new_VentureBank d (empty_world\<lparr>innerHeight := H\<rparr>))"

definition placement :: "js_error + world \<Rightarrow> ref \<Rightarrow> (jsnum \<times> jsnum \<times> jsnum) option" where
  "placement res r =
     (case res of
        Inl e \<Rightarrow> None
      | Inr w \<Rightarrow>
          map_option (\<lambda>M. (vec_y (position (transform M)), vec_x (scale (transform M)),
                          vec_y (scale (transform M)))) (objs w r))"

section \<open>Basic facts about the state\<close>

text \<open>Rounding leaves zero and the numbers of the scenarios, which are doubles, as they are.\<close>

lemma round_double_0 [simp]: "round_double 0 = Num 0"
  by (simp add: round_double_def)

lemma round_double_exact:
  "round_double 80 = Num 80"
  "round_double 150 = Num 150"
  "round_double 200 = Num 200"
  "round_double 280 = Num 280"
  "round_double 480 = Num 480"
  "round_double 600 = Num 600"
  "round_double 1 = Num 1"
  by code_simp+

lemma trace_upd_obj [simp]: "trace (upd_obj r f w) = trace w"
  by (simp add: upd_obj_def split: option.splits)

lemma trace_emit [simp]: "trace (emit e w) = trace w @ [e]"
  by (simp add: emit_def)

lemma objs_emit [simp]: "objs (emit e w) = objs w"
  by (simp add: emit_def)

lemma objs_upd_obj:
  "objs (upd_obj r f w) = (case objs w r of None \<Rightarrow> objs w | Some R \<Rightarrow> (objs w)(r \<mapsto> f R))"
  by (simp add: upd_obj_def split: option.splits)

lemma objs_upd_obj_Some [simp]:
  "objs w r = Some R \<Longrightarrow> objs (upd_obj r f w) = (objs w)(r \<mapsto> f R)"
  by (simp add: objs_upd_obj)

lemma onPositionChanged_eq:
  "onPositionChanged this w = upd_obj this (\<lambda>R. R\<lparr>container :=
       (container R)\<lparr>pixi_x := vec_x (position (transform R)),
                      pixi_y := vec_y (position (transform R))\<rparr>\<rparr>) w"
  by (cases "objs w this") (simp_all add: onPositionChanged_def upd_obj_def)

lemma onScaleChanged_eq:
  "onScaleChanged this w = upd_obj this (\<lambda>R. R\<lparr>container :=
       (container R)\<lparr>pixi_scale_x := vec_x (scale (transform R)),
                      pixi_scale_y := vec_y (scale (transform R))\<rparr>\<rparr>) w"
  by (cases "objs w this") (simp_all add: onScaleChanged_def upd_obj_def)

lemma onRotationChanged_eq:
  "onRotationChanged this w = upd_obj this (\<lambda>R. R\<lparr>container :=
       (container R)\<lparr>pixi_rotation := vec_z (rotation (transform R))\<rparr>\<rparr>) w"
  by (simp add: onRotationChanged_def)

section \<open>Renderable: construction\<close>

lemma Renderable_constructor_objs:
  "objs (Renderable_constructor this w) this =
     Some \<lparr>container = PIXI_Container,
           transform = Transform_new
             \<lparr>position := (position Transform_new)\<lparr>onComponentChanged :=
                 [\<lparr>sub_context = this, sub_target = this, sub_callback = OnPositionChanged\<rparr>]\<rparr>,
              scale := (scale Transform_new)\<lparr>onComponentChanged :=
                 [\<lparr>sub_context = this, sub_target = this, sub_callback = OnScaleChanged\<rparr>]\<rparr>,
              rotation := (rotation Transform_new)\<lparr>onComponentChanged :=
                 [\<lparr>sub_context = this, sub_target = this, sub_callback = OnRotationChanged\<rparr>]\<rparr>\<rparr>\<rparr>"
  by (simp add: Renderable_constructor_def new_PIXI_Container_def new_Transform_def
        subscribe_def emit_def upd_obj_def Transform_new_def)

lemma Renderable_constructor_wired:
  "\<exists>R. objs (Renderable_constructor this w) this = Some R \<and> wired this R"
  by (simp add: Renderable_constructor_objs wired_def Transform_new_def)

text \<open>
  Claim C5. Constructing a Renderable asks the backend for exactly one container and
  creates exactly one Transform, in this order, and then registers exactly three
  subscriptions: the position component to \<open>onPositionChanged\<close>, the scale component to
  \<open>onScaleChanged\<close> and the rotation component to \<open>onRotationChanged\<close>, each bound
  to the Renderable and with the Renderable as context. The log grows by exactly these
  five calls, and each of the three subscriber lists of the new object's transform holds
  exactly its one subscription.
\<close>

theorem Renderable_constructor_wires:
  "trace (Renderable_constructor this w) = trace w @
     [ContainerCreated this, TransformCreated this,
      Subscribed this Position
        \<lparr>sub_context = this, sub_target = this, sub_callback = OnPositionChanged\<rparr>,
      Subscribed this Scale
        \<lparr>sub_context = this, sub_target = this, sub_callback = OnScaleChanged\<rparr>,
      Subscribed this Rotation
        \<lparr>sub_context = this, sub_target = this, sub_callback = OnRotationChanged\<rparr>]
   \<and> (\<exists>R. objs (Renderable_constructor this w) this = Some R
        \<and> onComponentChanged (position (transform R)) =
            [\<lparr>sub_context = this, sub_target = this, sub_callback = OnPositionChanged\<rparr>]
        \<and> onComponentChanged (scale (transform R)) =
            [\<lparr>sub_context = this, sub_target = this, sub_callback = OnScaleChanged\<rparr>]
        \<and> onComponentChanged (rotation (transform R)) =
            [\<lparr>sub_context = this, sub_target = this, sub_callback = OnRotationChanged\<rparr>])"
proof
  show "trace (Renderable_constructor this w) = trace w @
     [ContainerCreated this, TransformCreated this,
      Subscribed this Position
        \<lparr>sub_context = this, sub_target = this, sub_callback = OnPositionChanged\<rparr>,
      Subscribed this Scale
        \<lparr>sub_context = this, sub_target = this, sub_callback = OnScaleChanged\<rparr>,
      Subscribed this Rotation
        \<lparr>sub_context = this, sub_target = this, sub_callback = OnRotationChanged\<rparr>]"
    by (simp add: Renderable_constructor_def new_PIXI_Container_def new_Transform_def
          subscribe_def Let_def)
next
  show "\<exists>R. objs (Renderable_constructor this w) this = Some R
        \<and> onComponentChanged (position (transform R)) =
            [\<lparr>sub_context = this, sub_target = this, sub_callback = OnPositionChanged\<rparr>]
        \<and> onComponentChanged (scale (transform R)) =
            [\<lparr>sub_context = this, sub_target = this, sub_callback = OnScaleChanged\<rparr>]
        \<and> onComponentChanged (rotation (transform R)) =
            [\<lparr>sub_context = this, sub_target = this, sub_callback = OnRotationChanged\<rparr>]"
    by (simp add: Renderable_constructor_objs Transform_new_def)
qed

section \<open>Renderable: destruction\<close>

text \<open>
  Claim C6. One call of \<open>destroy()\<close> releases both owned resources, the backend
  container first and the Transform second: the log grows by exactly these two calls in
  this order, and afterwards the object's container and transform are both destroyed.
\<close>

theorem Renderable_destroy_order:
  "trace (Renderable_destroy this w) =
     trace w @ [ContainerDestroyed this, TransformDestroyed this]
   \<and> map_option (\<lambda>R. (pixi_destroyed (container R), transform_destroyed (transform R)))
        (objs (Renderable_destroy this w) this)
     = map_option (\<lambda>R. (True, True)) (objs w this)"
  by (simp add: Renderable_destroy_def Container_destroy_def Transform_destroy_def objs_upd_obj
      split: option.splits)

section \<open>Renderable: synchronisation with the backend\<close>

text \<open>
  Claim C7. Each synchronisation callback changes only the container fields it
  corresponds to: \<open>onPositionChanged\<close> leaves the whole state as it was but for the
  container's position x and y, \<open>onScaleChanged\<close> but for the container's scale x and
  y, \<open>onRotationChanged\<close> but for the container's rotation. The transform, the
  container's other fields, every other object and the log are unchanged.
\<close>

theorem sync_callbacks_frame:
  assumes "objs w this = Some R"
  shows "(\<exists>a b. onPositionChanged this w =
            w\<lparr>objs := (objs w)(this \<mapsto>
                 R\<lparr>container := (container R)\<lparr>pixi_x := a, pixi_y := b\<rparr>\<rparr>)\<rparr>)
       \<and> (\<exists>a b. onScaleChanged this w =
            w\<lparr>objs := (objs w)(this \<mapsto>
                 R\<lparr>container := (container R)\<lparr>pixi_scale_x := a, pixi_scale_y := b\<rparr>\<rparr>)\<rparr>)
       \<and> (\<exists>a. onRotationChanged this w =
            w\<lparr>objs := (objs w)(this \<mapsto>
                 R\<lparr>container := (container R)\<lparr>pixi_rotation := a\<rparr>\<rparr>)\<rparr>)"
  unfolding onPositionChanged_eq onScaleChanged_eq onRotationChanged_eq upd_obj_def
  using assms by (simp only: option.case) blast

theorem sync_callbacks_frame_witness:
  "objs (Renderable_constructor 0 empty_world) 0 \<noteq> None
   \<and> pixi_scale_x (container (the (objs
         (onPositionChanged 0 (Renderable_constructor 0 empty_world)) 0))) = Num 1
   \<and> trace (onPositionChanged 0 (Renderable_constructor 0 empty_world))
       = trace (Renderable_constructor 0 empty_world)"
proof -
  obtain R where R: "objs (Renderable_constructor 0 empty_world) 0 = Some R"
    by (simp add: Renderable_constructor_objs)
  have c: "pixi_scale_x (container R) = Num 1"
    using R by (auto simp add: Renderable_constructor_objs PIXI_Container_def)
  from sync_callbacks_frame [OF R] obtain a b where
    "onPositionChanged 0 (Renderable_constructor 0 empty_world) =
       (Renderable_constructor 0 empty_world)\<lparr>objs := (objs (Renderable_constructor 0 empty_world))
          (0 \<mapsto> R\<lparr>container := (container R)\<lparr>pixi_x := a, pixi_y := b\<rparr>\<rparr>)\<rparr>"
    by blast
  then show ?thesis using R c by simp
qed

lemma change_wired:
  assumes "objs w r = Some R" and "wired r R"
  shows "change r Position f w =
           onPositionChanged r (emit (Invoked r OnPositionChanged)
             (upd_obj r (\<lambda>R. R\<lparr>transform := map_component Position (assign f) (transform R)\<rparr>) w))"
    and "change r Scale f w =
           onScaleChanged r (emit (Invoked r OnScaleChanged)
             (upd_obj r (\<lambda>R. R\<lparr>transform := map_component Scale (assign f) (transform R)\<rparr>) w))"
    and "change r Rotation f w =
           onRotationChanged r (emit (Invoked r OnRotationChanged)
             (upd_obj r (\<lambda>R. R\<lparr>transform := map_component Rotation (assign f) (transform R)\<rparr>) w))"
  using assms by (simp_all add: change_def wired_def notify_def invoke_def Let_def)

text \<open>
  Claim C4. For a Renderable wired as its constructor wires it, every change of the
  transform's position, scale or rotation (any assignment \<open>f\<close> of new component
  values) runs exactly one synchronisation callback, the one of the changed component,
  and afterwards the backend container holds the transform's current values: container
  x and y are position x and y, container scale x and y are scale x and y, container
  rotation is rotation z.
\<close>

theorem transform_change_synchronises:
  assumes "objs w r = Some R" and "wired r R"
  shows "(trace (change r Position f w) = trace w @ [Invoked r OnPositionChanged]
       \<and> (\<exists>R'. objs (change r Position f w) r = Some R'
            \<and> (vec_x (position (transform R')), vec_y (position (transform R')),
                vec_z (position (transform R')))
               = f (vec_x (position (transform R)), vec_y (position (transform R)),
                    vec_z (position (transform R)))
            \<and> pixi_x (container R') = vec_x (position (transform R'))
            \<and> pixi_y (container R') = vec_y (position (transform R'))))
     \<and> (trace (change r Scale f w) = trace w @ [Invoked r OnScaleChanged]
       \<and> (\<exists>R'. objs (change r Scale f w) r = Some R'
            \<and> (vec_x (scale (transform R')), vec_y (scale (transform R')),
                vec_z (scale (transform R')))
               = f (vec_x (scale (transform R)), vec_y (scale (transform R)),
                    vec_z (scale (transform R)))
            \<and> pixi_scale_x (container R') = vec_x (scale (transform R'))
            \<and> pixi_scale_y (container R') = vec_y (scale (transform R'))))
     \<and> (trace (change r Rotation f w) = trace w @ [Invoked r OnRotationChanged]
       \<and> (\<exists>R'. objs (change r Rotation f w) r = Some R'
            \<and> (vec_x (rotation (transform R')), vec_y (rotation (transform R')),
                vec_z (rotation (transform R')))
               = f (vec_x (rotation (transform R)), vec_y (rotation (transform R)),
                    vec_z (rotation (transform R)))
            \<and> pixi_rotation (container R') = vec_z (rotation (transform R'))))"
  using assms
  by (simp add: change_wired onPositionChanged_eq onScaleChanged_eq onRotationChanged_eq
        objs_upd_obj assign_def split: prod.splits)

theorem transform_change_synchronises_witness:
  "(\<exists>R. objs (Renderable_constructor 0 empty_world) 0 = Some R \<and> wired 0 R)
   \<and> trace (change 0 Position (\<lambda>(x, y, z). (Num 5, y, z)) (Renderable_constructor 0 empty_world))
       = trace (Renderable_constructor 0 empty_world) @ [Invoked 0 OnPositionChanged]
   \<and> (\<exists>R'. objs (change 0 Position (\<lambda>(x, y, z). (Num 5, y, z))
                (Renderable_constructor 0 empty_world)) 0 = Some R'
         \<and> vec_x (position (transform R')) = Num 5 \<and> pixi_x (container R') = Num 5)"
proof -
  obtain R where R: "objs (Renderable_constructor 0 empty_world) 0 = Some R" and wr: "wired 0 R"
    using Renderable_constructor_wired by blast
  from transform_change_synchronises [OF R wr, of "\<lambda>(x, y, z). (Num 5, y, z)"]
  show ?thesis using R wr by auto
qed

section \<open>The bank: frames of the collaborators\<close>

lemma upd_obj_eq:
  "upd_obj r f w = w\<lparr>objs := (case objs w r of None \<Rightarrow> objs w | Some R \<Rightarrow> (objs w)(r \<mapsto> f R))\<rparr>"
  by (simp add: upd_obj_def split: option.splits)

lemma upd_actor_eq:
  "upd_actor r f w = w\<lparr>actors := (case actors w r of None \<Rightarrow> actors w | Some A \<Rightarrow> (actors w)(r \<mapsto> f A))\<rparr>"
  by (simp add: upd_actor_def split: option.splits)

lemma upd_bank_eq:
  "upd_bank r f w = w\<lparr>banks := (case banks w r of None \<Rightarrow> banks w | Some b \<Rightarrow> (banks w)(r \<mapsto> f b))\<rparr>"
  by (simp add: upd_bank_def split: option.splits)

lemma invoke_frame:
  "invoke s w = w\<lparr>objs := objs (invoke s w), trace := trace (invoke s w)\<rparr>"
  by (cases "sub_callback s")
     (simp_all add: invoke_def Let_def onPositionChanged_eq onScaleChanged_eq onRotationChanged_eq
        upd_obj_eq emit_def)

lemma notify_frame:
  "notify subs w = w\<lparr>objs := objs (notify subs w), trace := trace (notify subs w)\<rparr>"
proof (induction subs arbitrary: w)
  case Nil
  then show ?case by (simp add: notify_def)
next
  case (Cons s subs)
  have "notify (s # subs) w = notify subs (invoke s w)"
    by (simp add: notify_def)
  also have "\<dots> = (invoke s w)\<lparr>objs := objs (notify subs (invoke s w)),
                                trace := trace (notify subs (invoke s w))\<rparr>"
    by (rule Cons.IH)
  also have "\<dots> = w\<lparr>objs := objs (notify subs (invoke s w)),
                      trace := trace (notify subs (invoke s w))\<rparr>"
    by (subst invoke_frame) simp
  finally show ?case by (simp add: notify_def)
qed

lemma change_frame:
  "change r c f w = w\<lparr>objs := objs (change r c f w), trace := trace (change r c f w)\<rparr>"
proof (cases "objs w r")
  case None
  then show ?thesis by (simp add: change_def)
next
  case (Some R)
  then show ?thesis
    by (simp add: change_def Let_def upd_obj_eq) (subst notify_frame, simp)
qed

lemma change_other [simp]:
  "actors (change r c f w) = actors w"
  "buttons (change r c f w) = buttons w"
  "components (change r c f w) = components w"
  "banks (change r c f w) = banks w"
  "ON_CYCLE_COMPLETE (change r c f w) = ON_CYCLE_COMPLETE w"
  "localStorage (change r c f w) = localStorage w"
  "innerHeight (change r c f w) = innerHeight w"
  "next_ref (change r c f w) = next_ref w"
  by (subst change_frame, simp)+

lemma Renderable_constructor_eq:
  "Renderable_constructor this w = w\<lparr>objs := objs (Renderable_constructor this w),
      trace := trace (Renderable_constructor this w)\<rparr>"
  by (simp add: Renderable_constructor_def new_PIXI_Container_def new_Transform_def
        subscribe_def Let_def upd_obj_eq emit_def)

lemma Renderable_constructor_other [simp]:
  "actors (Renderable_constructor r w) = actors w"
  "buttons (Renderable_constructor r w) = buttons w"
  "components (Renderable_constructor r w) = components w"
  "banks (Renderable_constructor r w) = banks w"
  "ON_CYCLE_COMPLETE (Renderable_constructor r w) = ON_CYCLE_COMPLETE w"
  "localStorage (Renderable_constructor r w) = localStorage w"
  "innerHeight (Renderable_constructor r w) = innerHeight w"
  "next_ref (Renderable_constructor r w) = next_ref w"
  by (subst Renderable_constructor_eq, simp)+

lemma Actor_constructor_other [simp]:
  "buttons (Actor_constructor r w) = buttons w"
  "components (Actor_constructor r w) = components w"
  "banks (Actor_constructor r w) = banks w"
  "ON_CYCLE_COMPLETE (Actor_constructor r w) = ON_CYCLE_COMPLETE w"
  "localStorage (Actor_constructor r w) = localStorage w"
  "innerHeight (Actor_constructor r w) = innerHeight w"
  "next_ref (Actor_constructor r w) = next_ref w"
  "actors (Actor_constructor r w) = (actors w)(r \<mapsto> \<lparr>displayComponents = Map.empty, children = []\<rparr>)"
  by (simp_all add: Actor_constructor_def Let_def)

lemma new_component_fields [simp]:
  "fst (new_component d w) = next_ref w"
  "next_ref (snd (new_component d w)) = next_ref w + 1"
  "components (snd (new_component d w)) = (components w)(next_ref w \<mapsto> d)"
  "actors (snd (new_component d w)) = actors w"
  "buttons (snd (new_component d w)) = buttons w"
  "banks (snd (new_component d w)) = banks w"
  "ON_CYCLE_COMPLETE (snd (new_component d w)) = ON_CYCLE_COMPLETE w"
  "localStorage (snd (new_component d w)) = localStorage w"
  "innerHeight (snd (new_component d w)) = innerHeight w"
  by (simp_all add: new_component_def Let_def)

lemma new_Button_fields [simp]:
  "fst (new_Button d w) = next_ref w"
  "next_ref (snd (new_Button d w)) = next_ref w + 1"
  "components (snd (new_Button d w)) = components w"
  "actors (snd (new_Button d w)) =
     (actors w)(next_ref w \<mapsto> \<lparr>displayComponents = Map.empty, children = []\<rparr>)"
  "buttons (snd (new_Button d w)) = (buttons w)(next_ref w \<mapsto> d)"
  "banks (snd (new_Button d w)) = banks w"
  "ON_CYCLE_COMPLETE (snd (new_Button d w)) = ON_CYCLE_COMPLETE w"
  "localStorage (snd (new_Button d w)) = localStorage w"
  "innerHeight (snd (new_Button d w)) = innerHeight w"
  by (simp_all add: new_Button_def Let_def)

lemma upd_actor_fields [simp]:
  "next_ref (upd_actor r f w) = next_ref w"
  "components (upd_actor r f w) = components w"
  "actors (upd_actor r f w) =
     (case actors w r of None \<Rightarrow> actors w | Some A \<Rightarrow> (actors w)(r \<mapsto> f A))"
  "buttons (upd_actor r f w) = buttons w"
  "banks (upd_actor r f w) = banks w"
  "ON_CYCLE_COMPLETE (upd_actor r f w) = ON_CYCLE_COMPLETE w"
  "localStorage (upd_actor r f w) = localStorage w"
  "innerHeight (upd_actor r f w) = innerHeight w"
  "objs (upd_actor r f w) = objs w"
  "trace (upd_actor r f w) = trace w"
  by (simp_all add: upd_actor_eq)

lemma upd_bank_fields [simp]:
  "next_ref (upd_bank r f w) = next_ref w"
  "components (upd_bank r f w) = components w"
  "banks (upd_bank r f w) =
     (case banks w r of None \<Rightarrow> banks w | Some b \<Rightarrow> (banks w)(r \<mapsto> f b))"
  "buttons (upd_bank r f w) = buttons w"
  "actors (upd_bank r f w) = actors w"
  "ON_CYCLE_COMPLETE (upd_bank r f w) = ON_CYCLE_COMPLETE w"
  "localStorage (upd_bank r f w) = localStorage w"
  "innerHeight (upd_bank r f w) = innerHeight w"
  "objs (upd_bank r f w) = objs w"
  "trace (upd_bank r f w) = trace w"
  by (simp_all add: upd_bank_eq)

lemma addDisplayComponent_fields [simp]:
  "next_ref (addDisplayComponent r c w) = next_ref w"
  "components (addDisplayComponent r c w) = components w"
  "buttons (addDisplayComponent r c w) = buttons w"
  "banks (addDisplayComponent r c w) = banks w"
  "ON_CYCLE_COMPLETE (addDisplayComponent r c w) = ON_CYCLE_COMPLETE w"
  "localStorage (addDisplayComponent r c w) = localStorage w"
  "innerHeight (addDisplayComponent r c w) = innerHeight w"
  "objs (addDisplayComponent r c w) = objs w"
  "trace (addDisplayComponent r c w) = trace w"
  by (simp_all add: addDisplayComponent_def split: option.splits)

lemma addDisplayComponent_actors:
  "actors (addDisplayComponent r c w) =
     (case components w c of
        None \<Rightarrow> actors w
      | Some d \<Rightarrow> (case actors w r of
           None \<Rightarrow> actors w
         | Some A \<Rightarrow> (actors w)(r \<mapsto> A\<lparr>displayComponents := (displayComponents A)(component_name d \<mapsto> c)\<rparr>)))"
  by (simp add: addDisplayComponent_def split: option.splits)

lemma addChild_fields [simp]:
  "next_ref (addChild r c w) = next_ref w"
  "components (addChild r c w) = components w"
  "buttons (addChild r c w) = buttons w"
  "banks (addChild r c w) = banks w"
  "ON_CYCLE_COMPLETE (addChild r c w) = ON_CYCLE_COMPLETE w"
  "localStorage (addChild r c w) = localStorage w"
  "innerHeight (addChild r c w) = innerHeight w"
  "objs (addChild r c w) = objs w"
  "trace (addChild r c w) = trace w"
  "actors (addChild r c w) =
     (case actors w r of None \<Rightarrow> actors w | Some A \<Rightarrow> (actors w)(r \<mapsto> A\<lparr>children := children A @ [c]\<rparr>))"
  by (simp_all add: addChild_def)

lemma GameEvent_subscribe_fields [simp]:
  "next_ref (GameEvent_subscribe c h w) = next_ref w"
  "components (GameEvent_subscribe c h w) = components w"
  "buttons (GameEvent_subscribe c h w) = buttons w"
  "banks (GameEvent_subscribe c h w) = banks w"
  "actors (GameEvent_subscribe c h w) = actors w"
  "ON_CYCLE_COMPLETE (GameEvent_subscribe c h w) = ON_CYCLE_COMPLETE w @ [(c, h)]"
  "localStorage (GameEvent_subscribe c h w) = localStorage w"
  "innerHeight (GameEvent_subscribe c h w) = innerHeight w"
  "objs (GameEvent_subscribe c h w) = objs w"
  "trace (GameEvent_subscribe c h w) = trace w"
  by (simp_all add: GameEvent_subscribe_def)

section \<open>The bank: construction\<close>

lemma Renderable_constructor_objs_eq:
  "objs (Renderable_constructor r w) = (objs w)(r \<mapsto> constructed r)"
  by (simp add: Renderable_constructor_def new_PIXI_Container_def new_Transform_def
        subscribe_def emit_def upd_obj_def Transform_new_def constructed_def)

lemma wired_constructed: "wired r (constructed r)"
  by (simp add: wired_def constructed_def Transform_new_def)

lemma new_objs [simp]:
  "objs (Actor_constructor r w) = (objs w)(r \<mapsto> constructed r)"
  "objs (snd (new_component d w)) = (objs w)(next_ref w \<mapsto> constructed (next_ref w))"
  "objs (snd (new_Button bd w)) = (objs w)(next_ref w \<mapsto> constructed (next_ref w))"
  by (simp_all add: Actor_constructor_def new_component_def new_Button_def Let_def
        Renderable_constructor_objs_eq)

lemma createManagerButton_fields:
  assumes "banks w this = Some bk" and "actors w this = Some A" and "this < next_ref w"
  shows "next_ref (createManagerButton this b w) = next_ref w + 4"
    and "banks (createManagerButton this b w) =
           (banks w)(this \<mapsto> bk\<lparr>managerButtons := (managerButtons bk)(business_name b \<mapsto> next_ref w)\<rparr>)"
    and "actors (createManagerButton this b w) this = Some (A\<lparr>children := children A @ [next_ref w]\<rparr>)"
    and "buttons (createManagerButton this b w) =
           (buttons w)(next_ref w \<mapsto> button_for (baseManagerButtonData (objectData bk)) b)"
    and "ON_CYCLE_COMPLETE (createManagerButton this b w) = ON_CYCLE_COMPLETE w"
    and "localStorage (createManagerButton this b w) = localStorage w"
    and "innerHeight (createManagerButton this b w) = innerHeight w"
  using assms
  by (simp_all add: createManagerButton_def Let_def split_beta addDisplayComponent_actors button_for_def)

lemma createManagerButton_objs:
  assumes "banks w this = Some bk"
  shows "objs (createManagerButton this b w) r =
     (if next_ref w \<le> r \<and> r < next_ref w + 4 then Some (constructed r) else objs w r)"
proof -
  have eq: "objs (createManagerButton this b w) =
     (objs w)(next_ref w \<mapsto> constructed (next_ref w),
              Suc (next_ref w) \<mapsto> constructed (Suc (next_ref w)),
              Suc (Suc (next_ref w)) \<mapsto> constructed (Suc (Suc (next_ref w))),
              Suc (Suc (Suc (next_ref w))) \<mapsto> constructed (Suc (Suc (Suc (next_ref w)))))"
    using assms by (simp add: createManagerButton_def Let_def split_beta)
  consider "r < next_ref w" | "r = next_ref w" | "r = Suc (next_ref w)"
    | "r = Suc (Suc (next_ref w))" | "r = Suc (Suc (Suc (next_ref w)))" | "next_ref w + 4 \<le> r"
    by linarith
  then show ?thesis by cases (simp_all add: eq)
qed

lemma button_refs_0 [simp]: "button_refs n 0 = []"
  by (simp add: button_refs_def)

lemma button_refs_Suc: "button_refs n (Suc k) = n # button_refs (n + 4) k"
proof -
  have "[0..<Suc k] = 0 # [Suc 0..<Suc k]"
    by (rule upt_conv_Cons) simp
  then have "[0..<Suc k] = 0 # map Suc [0..<k]"
    by (simp only: map_Suc_upt)
  then show ?thesis
    by (simp add: button_refs_def comp_def del: upt_Suc)
qed

lemma length_button_refs [simp]: "length (button_refs n k) = k"
  by (simp add: button_refs_def)

lemma nth_button_refs [simp]: "i < k \<Longrightarrow> button_refs n k ! i = n + 4 * i"
  by (simp add: button_refs_def)

lemma set_button_refs: "set (button_refs n k) = (\<lambda>i. n + 4 * i) ` {..<k}"
  by (auto simp add: button_refs_def)

lemma managerButtons_step:
  "(m(k \<mapsto> v)) ++ map_of (rev zs) = m ++ map_of (rev ((k, v) # zs))"
  by (rule ext) (simp add: map_add_def split: option.splits)

lemma fold_createManagerButton:
  assumes "banks w this = Some bk" and "actors w this = Some A" and "this < next_ref w"
  shows "next_ref (fold (createManagerButton this) bs w) = next_ref w + 4 * length bs
    \<and> banks (fold (createManagerButton this) bs w) this =
         Some (bk\<lparr>managerButtons := managerButtons bk ++
            map_of (rev (zip (map business_name bs) (button_refs (next_ref w) (length bs))))\<rparr>)
    \<and> actors (fold (createManagerButton this) bs w) this =
         Some (A\<lparr>children := children A @ button_refs (next_ref w) (length bs)\<rparr>)
    \<and> (\<forall>i<length bs. buttons (fold (createManagerButton this) bs w) (next_ref w + 4 * i) =
         Some (button_for (baseManagerButtonData (objectData bk)) (bs ! i)))
    \<and> (\<forall>r. r \<notin> set (button_refs (next_ref w) (length bs)) \<longrightarrow>
         buttons (fold (createManagerButton this) bs w) r = buttons w r)
    \<and> ON_CYCLE_COMPLETE (fold (createManagerButton this) bs w) = ON_CYCLE_COMPLETE w
    \<and> localStorage (fold (createManagerButton this) bs w) = localStorage w
    \<and> innerHeight (fold (createManagerButton this) bs w) = innerHeight w"
  using assms
proof (induction bs arbitrary: w bk A)
  case Nil
  then show ?case by simp
next
  case (Cons b bs)
  define n where "n = next_ref w"
  define w1 where "w1 = createManagerButton this b w"
  define bk1 where "bk1 = bk\<lparr>managerButtons := (managerButtons bk)(business_name b \<mapsto> n)\<rparr>"
  define A1 where "A1 = A\<lparr>children := children A @ [n]\<rparr>"
  define w' where "w' = fold (createManagerButton this) bs w1"
  define refs where "refs = button_refs (n + 4) (length bs)"
  note step = createManagerButton_fields [OF Cons.prems, of b, folded n_def w1_def]
  have n1: "next_ref w1 = n + 4" by (rule step(1))
  have b1: "banks w1 this = Some bk1" by (simp add: step(2) bk1_def)
  have a1: "actors w1 this = Some A1" by (simp add: step(3) A1_def)
  have lt1: "this < next_ref w1" using Cons.prems(3) n1 n_def by simp
  note IH = Cons.IH [OF b1 a1 lt1, unfolded n1, folded w'_def refs_def]
  note ih1 = IH [THEN conjunct1]
  note ih2 = IH [THEN conjunct2, THEN conjunct1]
  note ih3 = IH [THEN conjunct2, THEN conjunct2, THEN conjunct1]
  note ih4 = IH [THEN conjunct2, THEN conjunct2, THEN conjunct2, THEN conjunct1]
  note ih5 = IH [THEN conjunct2, THEN conjunct2, THEN conjunct2, THEN conjunct2, THEN conjunct1]
  note ih6 = IH [THEN conjunct2, THEN conjunct2, THEN conjunct2, THEN conjunct2, THEN conjunct2,
                 THEN conjunct1]
  note ih7 = IH [THEN conjunct2, THEN conjunct2, THEN conjunct2, THEN conjunct2, THEN conjunct2,
                 THEN conjunct2, THEN conjunct1]
  note ih8 = IH [THEN conjunct2, THEN conjunct2, THEN conjunct2, THEN conjunct2, THEN conjunct2,
                 THEN conjunct2, THEN conjunct2]
  have refs_Suc: "button_refs n (length (b # bs)) = n # refs"
    by (simp add: button_refs_Suc refs_def)
  have notin: "n \<notin> set refs"
    by (auto simp add: set_button_refs refs_def)
  have od: "objectData bk1 = objectData bk" by (simp add: bk1_def)
  have fold_eq: "fold (createManagerButton this) (b # bs) w = w'"
    by (simp add: w'_def w1_def)
  have c1: "next_ref w' = n + 4 * length (b # bs)"
    using ih1 by simp
  have mb: "managerButtons bk1 ++ map_of (rev (zip (map business_name bs) refs)) =
        managerButtons bk ++ map_of (rev (zip (map business_name (b # bs)) (n # refs)))"
    using managerButtons_step [of "managerButtons bk" "business_name b" n
        "zip (map business_name bs) refs"]
    by (simp add: bk1_def del: rev.simps map_of.simps)
  have "bk1\<lparr>managerButtons := managerButtons bk1 ++
            map_of (rev (zip (map business_name bs) refs))\<rparr> =
        bk\<lparr>managerButtons := managerButtons bk ++
            map_of (rev (zip (map business_name (b # bs)) (n # refs)))\<rparr>"
    unfolding mb by (simp add: bk1_def)
  then have c2: "banks w' this =
         Some (bk\<lparr>managerButtons := managerButtons bk ++
            map_of (rev (zip (map business_name (b # bs)) (button_refs n (length (b # bs)))))\<rparr>)"
    unfolding refs_Suc ih2 by (rule arg_cong)
  have c3: "actors w' this =
         Some (A\<lparr>children := children A @ button_refs n (length (b # bs))\<rparr>)"
    unfolding refs_Suc ih3 by (simp add: A1_def)
  have c5: "\<forall>r. r \<notin> set (button_refs n (length (b # bs))) \<longrightarrow> buttons w' r = buttons w r"
  proof (intro allI impI)
    fix r assume "r \<notin> set (button_refs n (length (b # bs)))"
    then have r: "r \<noteq> n" "r \<notin> set refs" unfolding refs_Suc by simp_all
    have "buttons w' r = buttons w1 r" using ih5 r(2) by blast
    also have "\<dots> = buttons w r" using r(1) by (simp add: step(4))
    finally show "buttons w' r = buttons w r" .
  qed
  have c4: "\<forall>i<length (b # bs). buttons w' (n + 4 * i) =
         Some (button_for (baseManagerButtonData (objectData bk)) ((b # bs) ! i))"
  proof (intro allI impI)
    fix i assume i: "i < length (b # bs)"
    show "buttons w' (n + 4 * i) =
         Some (button_for (baseManagerButtonData (objectData bk)) ((b # bs) ! i))"
    proof (cases i)
      case 0
      have "buttons w' n = buttons w1 n" using ih5 notin by blast
      then show ?thesis using 0 by (simp add: step(4))
    next
      case (Suc j)
      then have "j < length bs" using i by simp
      then have "buttons w' (n + 4 + 4 * j) =
          Some (button_for (baseManagerButtonData (objectData bk1)) (bs ! j))"
        using ih4 by blast
      then show ?thesis using Suc od by (simp add: add.assoc)
    qed
  qed
  have c6: "ON_CYCLE_COMPLETE w' = ON_CYCLE_COMPLETE w"
    using ih6 by (simp add: step(5))
  have c7: "localStorage w' = localStorage w"
    using ih7 by (simp add: step(6))
  have c8: "innerHeight w' = innerHeight w"
    using ih8 by (simp add: step(7))
  show ?case
    unfolding fold_eq n_def [symmetric]
    by (intro conjI) (rule c1 c2 c3 c4 c5 c6 c7 c8)+
qed

lemma fold_createManagerButton_objs:
  assumes "banks w this = Some bk" and "actors w this = Some A" and "this < next_ref w"
  shows "objs (fold (createManagerButton this) bs w) r =
     (if next_ref w \<le> r \<and> r < next_ref w + 4 * length bs then Some (constructed r)
      else objs w r)"
  using assms
proof (induction bs arbitrary: w bk A)
  case Nil
  then show ?case by auto
next
  case (Cons b bs)
  define n where "n = next_ref w"
  define w1 where "w1 = createManagerButton this b w"
  note step = createManagerButton_fields [OF Cons.prems, of b, folded n_def w1_def]
  have n1: "next_ref w1 = n + 4" by (rule step(1))
  have b1: "banks w1 this =
      Some (bk\<lparr>managerButtons := (managerButtons bk)(business_name b \<mapsto> n)\<rparr>)"
    by (simp add: step(2))
  have a1: "actors w1 this = Some (A\<lparr>children := children A @ [n]\<rparr>)" by (rule step(3))
  have lt1: "this < next_ref w1" using Cons.prems(3) n1 n_def by simp
  have o1: "objs w1 r = (if n \<le> r \<and> r < n + 4 then Some (constructed r) else objs w r)"
    unfolding w1_def n_def by (rule createManagerButton_objs [OF Cons.prems(1)])
  have "objs (fold (createManagerButton this) bs w1) r =
     (if n + 4 \<le> r \<and> r < n + 4 + 4 * length bs then Some (constructed r) else objs w1 r)"
    using Cons.IH [OF b1 a1 lt1] unfolding n1 .
  also have "\<dots> =
     (if n \<le> r \<and> r < n + 4 * length (b # bs) then Some (constructed r) else objs w r)"
    unfolding o1 by auto
  finally show ?case by (simp add: w1_def n_def)
qed

lemma VentureBank_constructor_prefix:
  assumes "this < next_ref w"
  shows "\<exists>w7. VentureBank_constructor this d w = fold (createManagerButton this) (businesses d) w7
     \<and> banks w7 this = Some (initial_bank d)
     \<and> actors w7 this =
         Some \<lparr>displayComponents = [''balanceText'' \<mapsto> next_ref w], children = []\<rparr>
     \<and> next_ref w7 = next_ref w + 1
     \<and> buttons w7 = buttons w
     \<and> ON_CYCLE_COMPLETE w7 = ON_CYCLE_COMPLETE w @ [(this, OnCycleComplete this)]
     \<and> localStorage w7 = localStorage w
     \<and> innerHeight w7 = innerHeight w
     \<and> objs w7 = (objs w)(this \<mapsto> constructed this,
                            next_ref w \<mapsto> balanceText_object (next_ref w))"
proof -
  define w1 where "w1 = Actor_constructor this w"
  define w2 where "w2 = w1\<lparr>banks := (banks w1)(this \<mapsto>
                 \<lparr>objectData = d,
                  balance = Observable (Num 0),
                  purchaseMode = Observable ONE,
                  globalProfitMultiplier = Observable (Num 1),
                  managerButtons = Map.empty\<rparr>)\<rparr>"
  define c where "c = TextComponent ''balanceText'' (TextObservable this) (Some CURRENCY) None"
  define w3 where "w3 = snd (new_component c w2)"
  define t where "t = next_ref w"
  define w4 where "w4 = change t Position (\<lambda>(x, y, z). (Num 10, Num 0, z)) w3"
  define w5 where "w5 = addDisplayComponent this t w4"
  define w6 where "w6 = upd_bank this (\<lambda>b. b\<lparr>balance := adjust (Num 0) (balance b)\<rparr>) w5"
  define w7 where "w7 = GameEvent_subscribe this (OnCycleComplete this) w6"
  have t: "fst (new_component c w2) = t"
    by (simp add: t_def w2_def w1_def)
  have ne: "this \<noteq> t" using assms by (simp add: t_def)
  have b7: "banks w7 this = Some (initial_bank d)"
    by (simp add: w7_def w6_def w5_def w4_def w3_def w2_def initial_bank_def Observable_def
          adjust_def setValue_def getValue_def)
  have a7: "actors w7 this =
         Some \<lparr>displayComponents = [''balanceText'' \<mapsto> t], children = []\<rparr>"
    using ne
    by (simp add: w7_def w6_def w5_def addDisplayComponent_actors w4_def w3_def w2_def w1_def
          t_def c_def)
  have rest: "next_ref w7 = t + 1" "buttons w7 = buttons w"
    "ON_CYCLE_COMPLETE w7 = ON_CYCLE_COMPLETE w @ [(this, OnCycleComplete this)]"
    "localStorage w7 = localStorage w" "innerHeight w7 = innerHeight w"
    by (simp_all add: w7_def w6_def w5_def w4_def w3_def w2_def w1_def t_def)
  have o3: "objs w3 = (objs w)(this \<mapsto> constructed this, t \<mapsto> constructed t)"
    by (simp add: w3_def w2_def w1_def t_def)
  then have o3t: "objs w3 t = Some (constructed t)" by simp
  have "objs w4 = (objs w3)(t \<mapsto> balanceText_object t)"
    unfolding w4_def change_wired(1) [OF o3t wired_constructed]
    by (simp add: onPositionChanged_eq objs_upd_obj o3t balanceText_object_def assign_def
          constructed_def Transform_new_def)
  then have o7: "objs w7 = (objs w)(this \<mapsto> constructed this, t \<mapsto> balanceText_object t)"
    by (simp add: w7_def w6_def w5_def o3)
  have od: "objectData (initial_bank d) = d" by (simp add: initial_bank_def)
  have "VentureBank_constructor this d w = createManagerButtons this w7"
    by (simp add: VentureBank_constructor_def Let_def split_beta
          w7_def w6_def w5_def w4_def w3_def t w2_def w1_def c_def t_def)
  then have "VentureBank_constructor this d w = fold (createManagerButton this) (businesses d) w7"
    by (simp add: createManagerButtons_def b7 od)
  then show ?thesis using b7 a7 rest o7 unfolding t_def by blast
qed

lemma new_VentureBank_result:
  "fst (new_VentureBank d w) = next_ref w
   \<and> banks (snd (new_VentureBank d w)) (next_ref w) =
       Some ((initial_bank d)\<lparr>managerButtons :=
          map_of (rev (zip (map business_name (businesses d))
                         (button_refs (next_ref w + 2) (length (businesses d)))))\<rparr>)
   \<and> actors (snd (new_VentureBank d w)) (next_ref w) =
       Some \<lparr>displayComponents = [''balanceText'' \<mapsto> next_ref w + 1],
             children = button_refs (next_ref w + 2) (length (businesses d))\<rparr>
   \<and> (\<forall>i<length (businesses d).
         buttons (snd (new_VentureBank d w)) (next_ref w + 2 + 4 * i) =
           Some (button_for (baseManagerButtonData d) (businesses d ! i)))
   \<and> (\<forall>r. r \<notin> set (button_refs (next_ref w + 2) (length (businesses d))) \<longrightarrow>
         buttons (snd (new_VentureBank d w)) r = buttons w r)
   \<and> ON_CYCLE_COMPLETE (snd (new_VentureBank d w)) =
       ON_CYCLE_COMPLETE w @ [(next_ref w, OnCycleComplete (next_ref w))]
   \<and> localStorage (snd (new_VentureBank d w)) = localStorage w
   \<and> innerHeight (snd (new_VentureBank d w)) = innerHeight w"
proof -
  define this where "this = next_ref w"
  define w0 where "w0 = w\<lparr>next_ref := this + 1\<rparr>"
  have lt: "this < next_ref w0" by (simp add: w0_def)
  from VentureBank_constructor_prefix [OF lt, of d]
  obtain w7 where w7: "VentureBank_constructor this d w0 =
        fold (createManagerButton this) (businesses d) w7"
      and b7: "banks w7 this = Some (initial_bank d)"
      and a7: "actors w7 this =
         Some \<lparr>displayComponents = [''balanceText'' \<mapsto> next_ref w0], children = []\<rparr>"
      and n7: "next_ref w7 = next_ref w0 + 1"
      and bt7: "buttons w7 = buttons w0"
      and ev7: "ON_CYCLE_COMPLETE w7 = ON_CYCLE_COMPLETE w0 @ [(this, OnCycleComplete this)]"
      and ls7: "localStorage w7 = localStorage w0"
      and ih7: "innerHeight w7 = innerHeight w0"
    by blast
  have n7': "next_ref w7 = this + 2" using n7 by (simp add: w0_def)
  have lt7: "this < next_ref w7" using n7' by simp
  define w' where "w' = fold (createManagerButton this) (businesses d) w7"
  have res: "snd (new_VentureBank d w) = w'" "fst (new_VentureBank d w) = this"
    unfolding new_VentureBank_def Let_def using w7
    by (simp_all add: w'_def this_def w0_def)
  note F = fold_createManagerButton [OF b7 a7 lt7, of "businesses d", folded w'_def, unfolded n7']
  note f2 = F [THEN conjunct2, THEN conjunct1]
  note f3 = F [THEN conjunct2, THEN conjunct2, THEN conjunct1]
  note f4 = F [THEN conjunct2, THEN conjunct2, THEN conjunct2, THEN conjunct1]
  note f5 = F [THEN conjunct2, THEN conjunct2, THEN conjunct2, THEN conjunct2, THEN conjunct1]
  note f6 = F [THEN conjunct2, THEN conjunct2, THEN conjunct2, THEN conjunct2, THEN conjunct2,
               THEN conjunct1]
  note f7 = F [THEN conjunct2, THEN conjunct2, THEN conjunct2, THEN conjunct2, THEN conjunct2,
               THEN conjunct2, THEN conjunct1]
  note f8 = F [THEN conjunct2, THEN conjunct2, THEN conjunct2, THEN conjunct2, THEN conjunct2,
               THEN conjunct2, THEN conjunct2]
  have p1: "banks w' this =
       Some ((initial_bank d)\<lparr>managerButtons :=
          map_of (rev (zip (map business_name (businesses d))
                         (button_refs (this + 2) (length (businesses d)))))\<rparr>)"
    unfolding f2 by (simp add: initial_bank_def)
  have p2: "actors w' this =
       Some \<lparr>displayComponents = [''balanceText'' \<mapsto> this + 1],
             children = button_refs (this + 2) (length (businesses d))\<rparr>"
    unfolding f3 by (simp add: w0_def)
  have p3: "\<forall>i<length (businesses d). buttons w' (this + 2 + 4 * i) =
           Some (button_for (baseManagerButtonData d) (businesses d ! i))"
    using f4 by (simp add: initial_bank_def)
  have p4: "\<forall>r. r \<notin> set (button_refs (this + 2) (length (businesses d))) \<longrightarrow>
         buttons w' r = buttons w r"
    using f5 by (simp add: bt7 w0_def)
  have p5: "ON_CYCLE_COMPLETE w' = ON_CYCLE_COMPLETE w @ [(this, OnCycleComplete this)]"
    unfolding f6 ev7 by (simp add: w0_def)
  have p6: "localStorage w' = localStorage w"
    unfolding f7 ls7 by (simp add: w0_def)
  have p7: "innerHeight w' = innerHeight w"
    unfolding f8 ih7 by (simp add: w0_def)
  show ?thesis
    unfolding res this_def [symmetric]
    by (intro conjI) (rule refl p1 p2 p3 p4 p5 p6 p7)+
qed

lemmas new_VentureBank_bank = new_VentureBank_result [THEN conjunct2, THEN conjunct1]

lemmas new_VentureBank_actor = new_VentureBank_result [THEN conjunct2, THEN conjunct2, THEN conjunct1]

lemmas new_VentureBank_buttons =
  new_VentureBank_result [THEN conjunct2, THEN conjunct2, THEN conjunct2, THEN conjunct1]

lemmas new_VentureBank_other_buttons =
  new_VentureBank_result [THEN conjunct2, THEN conjunct2, THEN conjunct2, THEN conjunct2,
    THEN conjunct1]

lemmas new_VentureBank_subscribers =
  new_VentureBank_result [THEN conjunct2, THEN conjunct2, THEN conjunct2, THEN conjunct2,
    THEN conjunct2, THEN conjunct1]

lemmas new_VentureBank_localStorage =
  new_VentureBank_result [THEN conjunct2, THEN conjunct2, THEN conjunct2, THEN conjunct2,
    THEN conjunct2, THEN conjunct2, THEN conjunct1]

lemmas new_VentureBank_innerHeight =
  new_VentureBank_result [THEN conjunct2, THEN conjunct2, THEN conjunct2, THEN conjunct2,
    THEN conjunct2, THEN conjunct2, THEN conjunct2]

lemma new_VentureBank_objs:
  "objs (snd (new_VentureBank d w)) r =
     (if r = next_ref w then Some (constructed r)
      else if r = next_ref w + 1 then Some (balanceText_object r)
      else if next_ref w + 2 \<le> r \<and> r < next_ref w + 2 + 4 * length (businesses d)
        then Some (constructed r)
      else objs w r)"
proof -
  define this where "this = next_ref w"
  define w0 where "w0 = w\<lparr>next_ref := this + 1\<rparr>"
  have lt: "this < next_ref w0" by (simp add: w0_def)
  from VentureBank_constructor_prefix [OF lt, of d]
  obtain w7 where w7: "VentureBank_constructor this d w0 =
        fold (createManagerButton this) (businesses d) w7"
      and b7: "banks w7 this = Some (initial_bank d)"
      and a7: "actors w7 this =
         Some \<lparr>displayComponents = [''balanceText'' \<mapsto> next_ref w0], children = []\<rparr>"
      and n7: "next_ref w7 = next_ref w0 + 1"
      and o7: "objs w7 = (objs w0)(this \<mapsto> constructed this,
                            next_ref w0 \<mapsto> balanceText_object (next_ref w0))"
    by blast
  have n7': "next_ref w7 = this + 2" using n7 by (simp add: w0_def)
  have lt7: "this < next_ref w7" using n7' by simp
  have res: "snd (new_VentureBank d w) = fold (createManagerButton this) (businesses d) w7"
    unfolding new_VentureBank_def Let_def using w7
    by (simp add: this_def w0_def)
  show ?thesis
    unfolding res fold_createManagerButton_objs [OF b7 a7 lt7] n7' o7
    by (simp add: w0_def this_def)
qed

lemma map_of_rev_zip_Some:
  assumes "length ns = length rs" and "a \<in> set ns"
  shows "\<exists>r. map_of (rev (zip ns rs)) a = Some r \<and> (a, r) \<in> set (zip ns rs)"
proof -
  have "map fst (zip ns rs) = ns"
    using assms(1) by (rule map_fst_zip)
  then have "set (map fst (rev (zip ns rs))) = set ns"
    by (simp add: rev_map [symmetric])
  then have "fst ` set (rev (zip ns rs)) = set ns"
    by (simp only: set_map)
  then have "map_of (rev (zip ns rs)) a \<noteq> None"
    using assms(2) by (simp add: map_of_eq_None_iff del: set_rev)
  then obtain r where r: "map_of (rev (zip ns rs)) a = Some r" by auto
  then have "(a, r) \<in> set (zip ns rs)"
    using map_of_SomeD [OF r] by simp
  then show ?thesis using r by blast
qed

lemma zip_distinct_right:
  assumes "distinct rs" and "(a, r) \<in> set (zip ns rs)" and "(b, r) \<in> set (zip ns rs)"
  shows "a = b"
proof -
  from assms(2) obtain i where i: "ns ! i = a" "rs ! i = r" "i < length ns" "i < length rs"
    by (auto simp add: in_set_zip)
  from assms(3) obtain j where j: "ns ! j = b" "rs ! j = r" "j < length ns" "j < length rs"
    by (auto simp add: in_set_zip)
  have "rs ! i = rs ! j" using i(2) j(2) by simp
  then have "i = j"
    using nth_eq_iff_index_eq [OF assms(1) i(4) j(4)] by simp
  then show ?thesis using i(1) j(1) by simp
qed

lemma map_of_rev_zip_inj:
  assumes "length ns = length rs" and "distinct rs"
  shows "inj_on (map_of (rev (zip ns rs))) (set ns)"
proof (rule inj_onI)
  fix a b
  assume a: "a \<in> set ns" and b: "b \<in> set ns"
    and eq: "map_of (rev (zip ns rs)) a = map_of (rev (zip ns rs)) b"
  from map_of_rev_zip_Some [OF assms(1) a] obtain r where
    r: "map_of (rev (zip ns rs)) a = Some r" "(a, r) \<in> set (zip ns rs)" by blast
  from map_of_rev_zip_Some [OF assms(1) b] obtain s where
    s: "map_of (rev (zip ns rs)) b = Some s" "(b, s) \<in> set (zip ns rs)" by blast
  have "r = s" using eq r(1) s(1) by simp
  then show "a = b" using zip_distinct_right [OF assms(2) r(2)] s(2) by simp
qed

lemma distinct_button_refs: "distinct (button_refs n k)"
  by (simp add: button_refs_def distinct_map inj_on_def)

lemma button_refs_bounds: "m \<in> set (button_refs n k) \<Longrightarrow> n \<le> m \<and> m < n + 4 * k"
  by (auto simp add: set_button_refs)

lemma new_VentureBank_ready:
  "\<exists>bk. banks (snd (new_VentureBank d w)) (next_ref w) = Some bk
     \<and> objectData bk = d
     \<and> (\<forall>b\<in>set (businesses d). \<exists>m. managerButtons bk (business_name b) = Some m
            \<and> objs (snd (new_VentureBank d w)) m = Some (constructed m))
     \<and> inj_on (managerButtons bk) (business_name ` set (businesses d))
     \<and> getDisplayComponent (next_ref w) ''balanceText'' (snd (new_VentureBank d w))
         = Some (next_ref w + 1)
     \<and> objs (snd (new_VentureBank d w)) (next_ref w + 1) = Some (balanceText_object (next_ref w + 1))"
proof -
  define ns where "ns = map business_name (businesses d)"
  define rs where "rs = button_refs (next_ref w + 2) (length (businesses d))"
  define bk where "bk = (initial_bank d)\<lparr>managerButtons := map_of (rev (zip ns rs))\<rparr>"
  have len: "length ns = length rs" by (simp add: ns_def rs_def)
  have bank: "banks (snd (new_VentureBank d w)) (next_ref w) = Some bk"
    unfolding bk_def ns_def rs_def by (rule new_VentureBank_bank)
  have od: "objectData bk = d" by (simp add: bk_def initial_bank_def)
  have entries: "\<forall>b\<in>set (businesses d). \<exists>m. managerButtons bk (business_name b) = Some m
            \<and> objs (snd (new_VentureBank d w)) m = Some (constructed m)"
  proof
    fix b assume "b \<in> set (businesses d)"
    then have "business_name b \<in> set ns" by (simp add: ns_def)
    from map_of_rev_zip_Some [OF len this] obtain m where
      m: "map_of (rev (zip ns rs)) (business_name b) = Some m"
         "(business_name b, m) \<in> set (zip ns rs)" by blast
    have "m \<in> set rs" using m(2) by (rule set_zip_rightD)
    then have "next_ref w + 2 \<le> m \<and> m < next_ref w + 2 + 4 * length (businesses d)"
      unfolding rs_def by (rule button_refs_bounds)
    then have "objs (snd (new_VentureBank d w)) m = Some (constructed m)"
      by (simp add: new_VentureBank_objs)
    then show "\<exists>m. managerButtons bk (business_name b) = Some m
            \<and> objs (snd (new_VentureBank d w)) m = Some (constructed m)"
      using m(1) by (simp add: bk_def)
  qed
  have "inj_on (map_of (rev (zip ns rs))) (set ns)"
    using len by (rule map_of_rev_zip_inj) (simp add: rs_def distinct_button_refs)
  then have inj: "inj_on (managerButtons bk) (business_name ` set (businesses d))"
    by (simp add: bk_def ns_def)
  have label: "getDisplayComponent (next_ref w) ''balanceText'' (snd (new_VentureBank d w))
         = Some (next_ref w + 1)"
    by (simp add: getDisplayComponent_def new_VentureBank_actor)
  have obj: "objs (snd (new_VentureBank d w)) (next_ref w + 1)
         = Some (balanceText_object (next_ref w + 1))"
    by (simp add: new_VentureBank_objs)
  show ?thesis using bank od entries inj label obj by blast
qed

lemma fresh_bank:
  "\<exists>bk. banks (snd (new_VentureBank example_data (empty_world\<lparr>localStorage := store\<rparr>))) 0 = Some bk
     \<and> balance bk = \<lparr>ob_value = Num 0, ob_notifications = 1\<rparr>
     \<and> globalProfitMultiplier bk = \<lparr>ob_value = Num 1, ob_notifications = 0\<rparr>"
  using new_VentureBank_bank [where d = example_data and w = "empty_world\<lparr>localStorage := store\<rparr>"]
  by (simp add: empty_world_def initial_bank_def)

lemma fresh_world:
  "localStorage (snd (new_VentureBank example_data (empty_world\<lparr>localStorage := store\<rparr>))) = store"
  "ON_CYCLE_COMPLETE (snd (new_VentureBank example_data (empty_world\<lparr>localStorage := store\<rparr>)))
     = [(0, OnCycleComplete 0)]"
  by (simp_all add: new_VentureBank_localStorage new_VentureBank_subscribers empty_world_def)

text \<open>
  Claim C10. Right after construction the bank has balance 0, global profit multiplier 1
  and purchase mode ONE; the balance observable has notified exactly once (the
  \<open>adjust(0)\<close> of the constructor, which leaves the value 0). For every business of the
  configuration, in order, exactly one manager button was created: the children of the
  bank are as many distinct new buttons as there are businesses, the i-th of them built
  from the base button data with the i-th business's name, and no other button was
  created or changed. \<open>managerButtons\<close> maps each name to the button of the last
  business with that name (a later duplicate overwrites the earlier entry).
\<close>

theorem VentureBank_constructor_initial_state:
  "fst (new_VentureBank d w) = next_ref w
   \<and> (\<exists>bk A. banks (snd (new_VentureBank d w)) (next_ref w) = Some bk
        \<and> actors (snd (new_VentureBank d w)) (next_ref w) = Some A
        \<and> objectData bk = d
        \<and> getValue (balance bk) = Num 0
        \<and> ob_notifications (balance bk) = 1
        \<and> getValue (globalProfitMultiplier bk) = Num 1
        \<and> getValue (purchaseMode bk) = ONE
        \<and> children A = button_refs (next_ref w + 2) (length (businesses d))
        \<and> distinct (children A)
        \<and> managerButtons bk =
            map_of (rev (zip (map business_name (businesses d)) (children A))))
   \<and> (\<forall>i<length (businesses d).
         buttons (snd (new_VentureBank d w)) (next_ref w + 2 + 4 * i) =
           Some ((baseManagerButtonData d)
             \<lparr>button_name := business_name (businesses d ! i),
              labels := Some (case labels (baseManagerButtonData d) of
                                None \<Rightarrow> [] | Some l \<Rightarrow> l)\<rparr>))
   \<and> (\<forall>r. r \<notin> set (button_refs (next_ref w + 2) (length (businesses d))) \<longrightarrow>
         buttons (snd (new_VentureBank d w)) r = buttons w r)"
proof -
  have d: "distinct (button_refs (next_ref w + 2) (length (businesses d)))"
    by (simp add: button_refs_def distinct_map inj_on_def)
  have "\<exists>bk A. banks (snd (new_VentureBank d w)) (next_ref w) = Some bk
        \<and> actors (snd (new_VentureBank d w)) (next_ref w) = Some A
        \<and> objectData bk = d
        \<and> getValue (balance bk) = Num 0
        \<and> ob_notifications (balance bk) = 1
        \<and> getValue (globalProfitMultiplier bk) = Num 1
        \<and> getValue (purchaseMode bk) = ONE
        \<and> children A = button_refs (next_ref w + 2) (length (businesses d))
        \<and> distinct (children A)
        \<and> managerButtons bk =
            map_of (rev (zip (map business_name (businesses d)) (children A)))"
    unfolding new_VentureBank_bank new_VentureBank_actor
    using d by (simp add: initial_bank_def getValue_def)
  moreover have "\<forall>i<length (businesses d).
         buttons (snd (new_VentureBank d w)) (next_ref w + 2 + 4 * i) =
           Some ((baseManagerButtonData d)
             \<lparr>button_name := business_name (businesses d ! i),
              labels := Some (case labels (baseManagerButtonData d) of
                                None \<Rightarrow> [] | Some l \<Rightarrow> l)\<rparr>)"
    using new_VentureBank_buttons [where d = d and w = w] by (simp add: button_for_def)
  ultimately show ?thesis
    using new_VentureBank_result [where d = d and w = w, THEN conjunct1]
      new_VentureBank_other_buttons [where d = d and w = w]
    by (intro conjI)
qed

theorem VentureBank_constructor_initial_state_witness:
  "fst (new_VentureBank duplicate_data empty_world) = 0
   \<and> (\<exists>bk A. banks (snd (new_VentureBank duplicate_data empty_world)) 0 = Some bk
         \<and> actors (snd (new_VentureBank duplicate_data empty_world)) 0 = Some A
         \<and> getValue (balance bk) = Num 0
         \<and> children A = [2, 6, 10]
         \<and> managerButtons bk ''Lemonade'' = Some 10
         \<and> managerButtons bk ''News'' = Some 6
         \<and> managerButtons bk ''Cars'' = None)
   \<and> map_option button_name (buttons (snd (new_VentureBank duplicate_data empty_world)) 2)
       = Some ''Lemonade''
   \<and> buttons (snd (new_VentureBank duplicate_data empty_world)) 3 = None"
proof -
  note T = VentureBank_constructor_initial_state [where d = duplicate_data and w = empty_world]
  have n: "next_ref empty_world = 0" by (simp add: empty_world_def)
  have len: "length (businesses duplicate_data) = 3" by (simp add: duplicate_data_def)
  have refs: "button_refs (next_ref empty_world + 2) (length (businesses duplicate_data))
      = [2, 6, 10]"
    by (simp add: n len button_refs_def upt_rec)
  note T1 = T [THEN conjunct1, unfolded n]
  note T2 = T [THEN conjunct2, THEN conjunct1, unfolded refs, unfolded n]
  have idx: "next_ref empty_world + 2 + 4 * 0 = (2::nat)" by (simp add: n)
  have lt: "0 < length (businesses duplicate_data)" by (simp add: len)
  note T3 = T [THEN conjunct2, THEN conjunct2, THEN conjunct1, rule_format, OF lt, unfolded idx]
  note T4 = T [THEN conjunct2, THEN conjunct2, THEN conjunct2, unfolded refs, rule_format, of 3]
  from T2 obtain bk A where a: "banks (snd (new_VentureBank duplicate_data empty_world)) 0 = Some bk"
     "actors (snd (new_VentureBank duplicate_data empty_world)) 0 = Some A"
     "getValue (balance bk) = Num 0" "children A = [2, 6, 10]"
     "managerButtons bk = map_of (rev (zip (map business_name (businesses duplicate_data)) [2, 6, 10]))"
    by auto
  have m: "managerButtons bk ''Lemonade'' = Some 10" "managerButtons bk ''News'' = Some 6"
    "managerButtons bk ''Cars'' = None"
    by (simp_all add: a(5) duplicate_data_def)
  have b2: "map_option button_name (buttons (snd (new_VentureBank duplicate_data empty_world)) 2)
       = Some ''Lemonade''"
    unfolding T3 by (simp add: duplicate_data_def)
  have b3: "buttons (snd (new_VentureBank duplicate_data empty_world)) 3 = None"
    using T4 by (simp add: empty_world_def)
  show ?thesis using T1 a m b2 b3 by (intro conjI exI [of _ bk] exI [of _ A])
qed

section \<open>The bank: effects of save and restore\<close>

lemma restore_bank:
  assumes "banks (Actor_restore this w) this = Some bk"
  shows "banks (restore Actor_restore this w) this =
     Some (bk\<lparr>balance := setValue
                 (LocalStorage_getNumber ''Balance'' (Num 0) (Actor_restore this w)) (balance bk),
              globalProfitMultiplier := setValue
                 (LocalStorage_getNumber ''GlobalProfitMultiplier'' (Num 1) (Actor_restore this w))
                 (globalProfitMultiplier bk)\<rparr>)"
  using assms
  by (simp add: restore_def Let_def upd_bank_eq LocalStorage_getNumber_def)

lemma save_storage:
  assumes "banks (Actor_save this w) this = Some bk"
  shows "localStorage (save Actor_save this w) =
     (localStorage (Actor_save this w))
       (''Balance'' \<mapsto> getValue (balance bk),
        ''GlobalProfitMultiplier'' \<mapsto> getValue (globalProfitMultiplier bk))"
  using assms by (simp add: save_def Let_def LocalStorage_setValue_def)

lemma session_bank:
  "\<exists>bk. banks (session store) 0 = Some bk
     \<and> balance bk = \<lparr>ob_value = (case store ''Balance'' of None \<Rightarrow> Num 0 | Some v \<Rightarrow> v),
                      ob_notifications = 2\<rparr>
     \<and> globalProfitMultiplier bk =
         \<lparr>ob_value = (case store ''GlobalProfitMultiplier'' of None \<Rightarrow> Num 1 | Some v \<Rightarrow> v),
          ob_notifications = 1\<rparr>"
proof -
  obtain bk where bk: "banks (snd (new_VentureBank example_data
        (empty_world\<lparr>localStorage := store\<rparr>))) 0 = Some bk"
    and v: "balance bk = \<lparr>ob_value = Num 0, ob_notifications = 1\<rparr>"
      "globalProfitMultiplier bk = \<lparr>ob_value = Num 1, ob_notifications = 0\<rparr>"
    using fresh_bank by blast
  show ?thesis
    unfolding session_def
    using restore_bank [of "\<lambda>this w. w" 0 _ bk, OF bk]
    by (simp add: v LocalStorage_getNumber_def fresh_world setValue_def)
qed

lemma session_world:
  "ON_CYCLE_COMPLETE (session store) = [(0, OnCycleComplete 0)]"
  "localStorage (session store) = store"
  by (simp_all add: session_def restore_def Let_def fresh_world)

section \<open>The bank: cycle completions\<close>

lemma publish_fold:
  "banks (fold (\<lambda>(ctx, h). run_handler h business) subs w) this =
     map_option (\<lambda>bk. bk\<lparr>balance :=
         (adjust (profit business) ^^ length (filter (\<lambda>s. snd s = OnCycleComplete this) subs))
           (balance bk)\<rparr>) (banks w this)"
proof (induction subs arbitrary: w)
  case Nil
  then show ?case by (simp add: option.map_ident)
next
  case (Cons s subs)
  obtain ctx r where s: "s = (ctx, OnCycleComplete r)"
    by (cases s, rename_tac c h, case_tac h) auto
  define w1 where "w1 = upd_bank r (\<lambda>b. b\<lparr>balance := adjust (profit business) (balance b)\<rparr>) w"
  have step: "fold (\<lambda>(ctx, h). run_handler h business) (s # subs) w =
              fold (\<lambda>(ctx, h). run_handler h business) subs w1"
    by (simp add: s w1_def)
  show ?case
  proof (cases "r = this")
    case True
    have "banks w1 this = map_option (\<lambda>b. b\<lparr>balance := adjust (profit business) (balance b)\<rparr>)
             (banks w this)"
      by (simp add: w1_def True split: option.splits)
    then show ?thesis
      unfolding step Cons.IH
      by (simp add: s True option.map_comp comp_def funpow_swap1)
  next
    case False
    have "banks w1 this = banks w this"
      using False by (simp add: w1_def split: option.splits)
    then show ?thesis
      unfolding step Cons.IH using False by (simp add: s)
  qed
qed

lemma publish_once:
  assumes "banks w this = Some bk"
    and "length (filter (\<lambda>s. snd s = OnCycleComplete this) (ON_CYCLE_COMPLETE w)) = 1"
  shows "banks (publish business w) this =
           Some (bk\<lparr>balance := adjust (profit business) (balance bk)\<rparr>)"
  using assms by (simp add: publish_def publish_fold)

text \<open>
  Claim C3. The constructor subscribes exactly one handler for the new bank to
  \<open>ON_CYCLE_COMPLETE\<close>. For a bank with exactly one such subscription (whatever
  handlers of other banks are subscribed), whatever its balance \<open>b\<close> and the
  business's profit \<open>p\<close>, one publish leaves the bank with balance \<open>b + p\<close>: the
  balance was adjusted exactly once (one notification round), and nothing else of the
  bank changed.
\<close>

theorem cycle_complete_adjusts_balance_once:
  "ON_CYCLE_COMPLETE (snd (new_VentureBank d w0)) =
     ON_CYCLE_COMPLETE w0 @ [(next_ref w0, OnCycleComplete (next_ref w0))]
   \<and> (banks w this = Some bk
        \<and> length (filter (\<lambda>s. snd s = OnCycleComplete this) (ON_CYCLE_COMPLETE w)) = 1
      \<longrightarrow> (\<exists>bk'. banks (publish business w) this = Some bk'
             \<and> bk' = bk\<lparr>balance := balance bk'\<rparr>
             \<and> getValue (balance bk') = js_add (getValue (balance bk)) (profit business)
             \<and> ob_notifications (balance bk') = ob_notifications (balance bk) + 1))"
proof (intro conjI impI)
  show "ON_CYCLE_COMPLETE (snd (new_VentureBank d w0)) =
     ON_CYCLE_COMPLETE w0 @ [(next_ref w0, OnCycleComplete (next_ref w0))]"
    by (rule new_VentureBank_subscribers)
next
  assume a: "banks w this = Some bk
        \<and> length (filter (\<lambda>s. snd s = OnCycleComplete this) (ON_CYCLE_COMPLETE w)) = 1"
  then have "banks (publish business w) this =
           Some (bk\<lparr>balance := adjust (profit business) (balance bk)\<rparr>)"
    by (simp add: publish_once)
  then show "\<exists>bk'. banks (publish business w) this = Some bk'
             \<and> bk' = bk\<lparr>balance := balance bk'\<rparr>
             \<and> getValue (balance bk') = js_add (getValue (balance bk)) (profit business)
             \<and> ob_notifications (balance bk') = ob_notifications (balance bk) + 1"
    by (simp add: adjust_def setValue_def getValue_def)
qed

theorem cycle_complete_adjusts_balance_once_witness:
  "(\<exists>bk. banks (session saved_store) 0 = Some bk \<and> getValue (balance bk) = Num 100)
   \<and> length (filter (\<lambda>s. snd s = OnCycleComplete 0) (ON_CYCLE_COMPLETE (session saved_store))) = 1
   \<and> (\<exists>bk'. banks (publish \<lparr>profit = Num 50\<rparr> (session saved_store)) 0 = Some bk'
         \<and> getValue (balance bk') = Num 150)"
proof -
  obtain bk where bk: "banks (session saved_store) 0 = Some bk"
    and v: "balance bk = \<lparr>ob_value = Num 100, ob_notifications = 2\<rparr>"
    using session_bank [of saved_store] by (auto simp add: saved_store_def)
  have one: "length (filter (\<lambda>s. snd s = OnCycleComplete 0)
               (ON_CYCLE_COMPLETE (session saved_store))) = 1"
    by (simp add: session_world)
  from cycle_complete_adjusts_balance_once
         [where w = "session saved_store" and this = 0 and bk = bk
            and business = "\<lparr>profit = Num 50\<rparr>", THEN conjunct2, rule_format, OF conjI, OF bk one]
  obtain bk' where "banks (publish \<lparr>profit = Num 50\<rparr> (session saved_store)) 0 = Some bk'"
    and "getValue (balance bk') = js_add (getValue (balance bk)) (profit \<lparr>profit = Num 50\<rparr>)"
    by blast
  then show ?thesis using bk v one by (simp add: getValue_def round_double_exact)
qed

section \<open>The bank: save and restore\<close>

text \<open>
  Claim C2. Whatever balance and multiplier a bank holds when \<open>save()\<close> reads them,
  a \<open>restore()\<close> of any bank (in particular a fresh one) that reads the store as the
  save left it yields the same balance and multiplier. When the store has neither key,
  \<open>restore()\<close> yields balance 0 and multiplier 1.
\<close>

theorem save_restore_roundtrip:
  "(banks (Actor_save this w) this = Some bk
      \<and> banks (Actor_restore this' w') this' = Some bk'
      \<and> localStorage (Actor_restore this' w') = localStorage (save Actor_save this w)
    \<longrightarrow> (\<exists>b. banks (restore Actor_restore this' w') this' = Some b
           \<and> getValue (balance b) = getValue (balance bk)
           \<and> getValue (globalProfitMultiplier b) = getValue (globalProfitMultiplier bk)))
   \<and> (banks (Actor_restore this' w') this' = Some bk'
      \<and> localStorage (Actor_restore this' w') ''Balance'' = None
      \<and> localStorage (Actor_restore this' w') ''GlobalProfitMultiplier'' = None
    \<longrightarrow> (\<exists>b. banks (restore Actor_restore this' w') this' = Some b
           \<and> getValue (balance b) = Num 0
           \<and> getValue (globalProfitMultiplier b) = Num 1))"
proof (intro conjI impI)
  assume a: "banks (Actor_save this w) this = Some bk
      \<and> banks (Actor_restore this' w') this' = Some bk'
      \<and> localStorage (Actor_restore this' w') = localStorage (save Actor_save this w)"
  then have saved: "banks (Actor_save this w) this = Some bk"
    and fresh: "banks (Actor_restore this' w') this' = Some bk'"
    and same: "localStorage (Actor_restore this' w') = localStorage (save Actor_save this w)"
    by simp_all
  have store: "localStorage (Actor_restore this' w') ''Balance'' = Some (getValue (balance bk))"
    "localStorage (Actor_restore this' w') ''GlobalProfitMultiplier''
       = Some (getValue (globalProfitMultiplier bk))"
    unfolding same save_storage [of Actor_save this w, OF saved] by simp_all
  have read: "LocalStorage_getNumber ''Balance'' (Num 0) (Actor_restore this' w')
       = getValue (balance bk)"
    "LocalStorage_getNumber ''GlobalProfitMultiplier'' (Num 1) (Actor_restore this' w')
       = getValue (globalProfitMultiplier bk)"
    by (simp_all add: LocalStorage_getNumber_def store)
  show "\<exists>b. banks (restore Actor_restore this' w') this' = Some b
           \<and> getValue (balance b) = getValue (balance bk)
           \<and> getValue (globalProfitMultiplier b) = getValue (globalProfitMultiplier bk)"
    unfolding restore_bank [of Actor_restore this' w', OF fresh] read
    by (simp add: getValue_def setValue_def)
next
  assume a: "banks (Actor_restore this' w') this' = Some bk'
      \<and> localStorage (Actor_restore this' w') ''Balance'' = None
      \<and> localStorage (Actor_restore this' w') ''GlobalProfitMultiplier'' = None"
  then have fresh: "banks (Actor_restore this' w') this' = Some bk'" by simp
  have read: "LocalStorage_getNumber ''Balance'' (Num 0) (Actor_restore this' w') = Num 0"
    "LocalStorage_getNumber ''GlobalProfitMultiplier'' (Num 1) (Actor_restore this' w') = Num 1"
    using a by (simp_all add: LocalStorage_getNumber_def)
  show "\<exists>b. banks (restore Actor_restore this' w') this' = Some b
           \<and> getValue (balance b) = Num 0
           \<and> getValue (globalProfitMultiplier b) = Num 1"
    unfolding restore_bank [of Actor_restore this' w', OF fresh] read
    by (simp add: getValue_def setValue_def)
qed

theorem save_restore_roundtrip_witness:
  "(\<exists>b. banks (restore (\<lambda>this w. w) 0
            (snd (new_VentureBank example_data (empty_world
               \<lparr>localStorage := localStorage
                  (save (\<lambda>this w. w) 0 (publish \<lparr>profit = Num 50\<rparr> (session saved_store)))\<rparr>)))) 0
          = Some b
        \<and> getValue (balance b) = Num 150 \<and> getValue (globalProfitMultiplier b) = Num 3)
   \<and> (\<exists>b. banks (restore (\<lambda>this w. w) 0
            (snd (new_VentureBank example_data (empty_world\<lparr>localStorage := Map.empty\<rparr>)))) 0
          = Some b
        \<and> getValue (balance b) = Num 0 \<and> getValue (globalProfitMultiplier b) = Num 1)"
proof -
  define w1 where "w1 = publish \<lparr>profit = Num 50\<rparr> (session saved_store)"
  define store where "store = localStorage (save (\<lambda>this w. w) 0 w1)"
  define fresh where "fresh = snd (new_VentureBank example_data (empty_world\<lparr>localStorage := store\<rparr>))"
  define fresh0 where
    "fresh0 = snd (new_VentureBank example_data (empty_world\<lparr>localStorage := Map.empty\<rparr>))"
  obtain bk0 where bk0: "banks (session saved_store) 0 = Some bk0"
    and v0: "balance bk0 = \<lparr>ob_value = Num 100, ob_notifications = 2\<rparr>"
      "globalProfitMultiplier bk0 = \<lparr>ob_value = Num 3, ob_notifications = 1\<rparr>"
    using session_bank [of saved_store] by (auto simp add: saved_store_def)
  have "banks w1 0 = Some (bk0\<lparr>balance := adjust (profit \<lparr>profit = Num 50\<rparr>) (balance bk0)\<rparr>)"
    unfolding w1_def by (rule publish_once [OF bk0]) (simp add: session_world)
  then obtain bk where bk: "banks w1 0 = Some bk"
    and v: "getValue (balance bk) = Num 150" "getValue (globalProfitMultiplier bk) = Num 3"
    by (simp add: v0 adjust_def setValue_def getValue_def round_double_exact)
  obtain bk' where bk': "banks fresh 0 = Some bk'"
    using fresh_bank [of store] unfolding fresh_def by blast
  have same: "localStorage fresh = localStorage (save (\<lambda>this w. w) 0 w1)"
    by (simp add: fresh_def fresh_world store_def)
  obtain bk0' where bk0': "banks fresh0 0 = Some bk0'"
    using fresh_bank [of Map.empty] unfolding fresh0_def by blast
  have none: "localStorage fresh0 ''Balance'' = None"
    "localStorage fresh0 ''GlobalProfitMultiplier'' = None"
    by (simp_all add: fresh0_def fresh_world)
  from save_restore_roundtrip
         [where Actor_save = "\<lambda>this w. w" and this = 0 and w = w1 and bk = bk
            and Actor_restore = "\<lambda>this w. w" and this' = 0 and w' = fresh and bk' = bk',
          THEN conjunct1, rule_format, OF conjI, OF bk conjI, OF bk' same]
  have r1: "\<exists>b. banks (restore (\<lambda>this w. w) 0 fresh) 0 = Some b
        \<and> getValue (balance b) = Num 150 \<and> getValue (globalProfitMultiplier b) = Num 3"
    by (simp add: v)
  from save_restore_roundtrip
         [where Actor_save = "\<lambda>this w. w" and this = 0 and w = w1 and bk = bk
            and Actor_restore = "\<lambda>this w. w" and this' = 0 and w' = fresh0 and bk' = bk0',
          THEN conjunct2, rule_format, OF conjI, OF bk0' conjI, OF none]
  have r2: "\<exists>b. banks (restore (\<lambda>this w. w) 0 fresh0) 0 = Some b
        \<and> getValue (balance b) = Num 0 \<and> getValue (globalProfitMultiplier b) = Num 1" .
  show ?thesis
    using r1 r2 unfolding fresh_def fresh0_def store_def w1_def by (rule conjI)
qed

text \<open>
  Claim C8. \<open>restore()\<close> completes for every store: the balance becomes the stored
  \<open>Balance\<close>, or 0 when the key is absent, and the multiplier the stored
  \<open>GlobalProfitMultiplier\<close>, or 1 when the key is absent.
\<close>

theorem restore_never_throws:
  assumes "banks (Actor_restore this w) this = Some bk"
  shows "\<exists>b. banks (restore Actor_restore this w) this = Some b
     \<and> getValue (balance b) =
         (case localStorage (Actor_restore this w) ''Balance'' of None \<Rightarrow> Num 0 | Some v \<Rightarrow> v)
     \<and> getValue (globalProfitMultiplier b) =
         (case localStorage (Actor_restore this w) ''GlobalProfitMultiplier'' of
            None \<Rightarrow> Num 1 | Some v \<Rightarrow> v)"
proof -
  have "banks (restore Actor_restore this w) this =
     Some (bk\<lparr>balance := setValue
                 (LocalStorage_getNumber ''Balance'' (Num 0) (Actor_restore this w)) (balance bk),
              globalProfitMultiplier := setValue
                 (LocalStorage_getNumber ''GlobalProfitMultiplier'' (Num 1) (Actor_restore this w))
                 (globalProfitMultiplier bk)\<rparr>)"
    using assms by (rule restore_bank [of Actor_restore this w])
  then show ?thesis
    by (simp add: LocalStorage_getNumber_def getValue_def setValue_def)
qed

theorem restore_never_throws_witness:
  "(\<exists>bk. banks (snd (new_VentureBank example_data
             (empty_world\<lparr>localStorage := [''Balance'' \<mapsto> Num 100]\<rparr>))) 0 = Some bk)
   \<and> (\<exists>b. banks (restore (\<lambda>this w. w) 0 (snd (new_VentureBank example_data
             (empty_world\<lparr>localStorage := [''Balance'' \<mapsto> Num 100]\<rparr>)))) 0 = Some b
        \<and> getValue (balance b) = Num 100 \<and> getValue (globalProfitMultiplier b) = Num 1)"
proof -
  obtain bk where bk: "banks (snd (new_VentureBank example_data
             (empty_world\<lparr>localStorage := [''Balance'' \<mapsto> Num 100]\<rparr>))) 0 = Some bk"
    using fresh_bank by blast
  from restore_never_throws [where Actor_restore = "\<lambda>this w. w" and this = 0 and bk = bk, OF bk]
  show ?thesis using bk by (simp add: fresh_world)
qed

section \<open>The bank: layout\<close>

lemma invoke_transform:
  "map_option transform (objs (invoke s w) r) = map_option transform (objs w r)"
  by (cases "sub_callback s")
     (simp_all add: invoke_def Let_def onPositionChanged_eq onScaleChanged_eq onRotationChanged_eq
        objs_upd_obj split: option.splits)

lemma notify_transform:
  "map_option transform (objs (notify subs w) r) = map_option transform (objs w r)"
proof (induction subs arbitrary: w)
  case Nil
  then show ?case by (simp add: notify_def)
next
  case (Cons s subs)
  have "notify (s # subs) w = notify subs (invoke s w)" by (simp add: notify_def)
  then show ?case by (simp add: Cons.IH invoke_transform)
qed

lemma change_transform:
  "map_option transform (objs (change m c f w) r) =
     (if r = m then map_option (\<lambda>R. map_component c (assign f) (transform R)) (objs w m)
      else map_option transform (objs w r))"
proof (cases "objs w m")
  case None
  then show ?thesis by (auto simp add: change_def)
next
  case (Some M)
  then show ?thesis
    by (simp add: change_def Let_def notify_transform objs_upd_obj)
qed

lemma change_live: "objs (change m c f w) r = None \<longleftrightarrow> objs w r = None"
proof -
  have "map_option transform (objs (change m c f w) r) = None \<longleftrightarrow> objs w r = None"
    by (simp add: change_transform)
  then show ?thesis by simp
qed

lemma managerButton_of_change [simp]:
  "managerButton_of this n (change m c f w) = managerButton_of this n w"
  by (simp add: managerButton_of_def)

lemma layout_Cons:
  assumes "banks w this = Some bk" and "managerButtons bk (business_name b) = Some m"
  shows "layout this sf h (b # bs) s w =
           layout this sf h bs (js_add s h)
             (change m Position (\<lambda>(x, y, z). (x, s, z))
               (change m Scale (\<lambda>_. (sf, sf, sf)) w))"
  using assms by (simp add: managerButton_of_def Let_def)

lemma layout_frame:
  assumes "banks w this = Some bk"
    and "\<forall>b\<in>set bs. managerButtons bk (business_name b) \<noteq> None"
  shows "\<exists>w'. layout this sf h bs s w = Inr w'
           \<and> banks w' = banks w
           \<and> (\<forall>r. (objs w' r = None) = (objs w r = None))
           \<and> (\<forall>r. Some r \<notin> (\<lambda>b. managerButtons bk (business_name b)) ` set bs \<longrightarrow>
                 map_option transform (objs w' r) = map_option transform (objs w r))"
  using assms
proof (induction bs arbitrary: s w)
  case Nil
  then show ?case by simp
next
  case (Cons b bs)
  from Cons.prems(2) obtain m where m: "managerButtons bk (business_name b) = Some m"
    by auto
  define w2 where "w2 = change m Position (\<lambda>(x, y, z). (x, s, z))
               (change m Scale (\<lambda>_. (sf, sf, sf)) w)"
  have step: "layout this sf h (b # bs) s w = layout this sf h bs (js_add s h) w2"
    unfolding w2_def by (rule layout_Cons [OF Cons.prems(1) m])
  have b2: "banks w2 this = Some bk" using Cons.prems(1) by (simp add: w2_def)
  have all: "\<forall>b\<in>set bs. managerButtons bk (business_name b) \<noteq> None"
    using Cons.prems(2) by simp
  from Cons.IH [OF b2 all, of "js_add s h"]
  obtain w' where w': "layout this sf h bs (js_add s h) w2 = Inr w'"
    and bw: "banks w' = banks w2"
    and live: "\<forall>r. (objs w' r = None) = (objs w2 r = None)"
    and fr: "\<forall>r. Some r \<notin> (\<lambda>b. managerButtons bk (business_name b)) ` set bs \<longrightarrow>
                 map_option transform (objs w' r) = map_option transform (objs w2 r)"
    by blast
  have l2: "\<forall>r. (objs w2 r = None) = (objs w r = None)"
    by (simp add: w2_def change_live)
  have f2: "\<forall>r. r \<noteq> m \<longrightarrow> map_option transform (objs w2 r) = map_option transform (objs w r)"
    by (simp add: w2_def change_transform)
  have "\<forall>r. Some r \<notin> (\<lambda>b. managerButtons bk (business_name b)) ` set (b # bs) \<longrightarrow>
                 map_option transform (objs w' r) = map_option transform (objs w r)"
  proof (intro allI impI)
    fix r assume r: "Some r \<notin> (\<lambda>b. managerButtons bk (business_name b)) ` set (b # bs)"
    then have "r \<noteq> m" using m by auto
    moreover have "Some r \<notin> (\<lambda>b. managerButtons bk (business_name b)) ` set bs"
      using r by auto
    ultimately show "map_option transform (objs w' r) = map_option transform (objs w r)"
      using fr f2 by simp
  qed
  moreover have "banks w' = banks w" using bw by (simp add: w2_def)
  moreover have "\<forall>r. (objs w' r = None) = (objs w r = None)" using live l2 by simp
  ultimately show ?case unfolding step using w' by blast
qed

lemma layout_positions:
  assumes "banks w this = Some bk"
    and "\<forall>b\<in>set bs. \<exists>m. managerButtons bk (business_name b) = Some m \<and> objs w m \<noteq> None"
    and "inj_on (managerButtons bk) (business_name ` set bs)"
    and "layout this sf h bs s w = Inr w'"
  shows "\<forall>i<length bs. business_name (bs ! i) \<notin> business_name ` set (drop (Suc i) bs) \<longrightarrow>
     (\<exists>m M. managerButtons bk (business_name (bs ! i)) = Some m \<and> objs w' m = Some M
        \<and> vec_y (position (transform M)) = ((\<lambda>y. js_add y h) ^^ i) s
        \<and> vec_x (scale (transform M)) = sf \<and> vec_y (scale (transform M)) = sf)"
  using assms
proof (induction bs arbitrary: s w)
  case Nil
  then show ?case by simp
next
  case (Cons b bs)
  from Cons.prems(2) obtain m M where m: "managerButtons bk (business_name b) = Some m"
    and M: "objs w m = Some M"
    by auto
  define w1 where "w1 = change m Scale (\<lambda>_. (sf, sf, sf)) w"
  define w2 where "w2 = change m Position (\<lambda>(x, y, z). (x, s, z)) w1"
  have step: "layout this sf h (b # bs) s w = layout this sf h bs (js_add s h) w2"
    unfolding w2_def w1_def by (rule layout_Cons [OF Cons.prems(1) m])
  then have run: "layout this sf h bs (js_add s h) w2 = Inr w'"
    using Cons.prems(4) by simp
  have b2: "banks w2 this = Some bk" using Cons.prems(1) by (simp add: w2_def w1_def)
  have live2: "\<forall>b\<in>set bs. \<exists>m. managerButtons bk (business_name b) = Some m \<and> objs w2 m \<noteq> None"
    using Cons.prems(2) by (simp add: w2_def w1_def change_live)
  have inj2: "inj_on (managerButtons bk) (business_name ` set bs)"
    using Cons.prems(3) by (rule inj_on_subset) auto
  note IH = Cons.IH [OF b2 live2 inj2 run]
  have all: "\<forall>b\<in>set bs. managerButtons bk (business_name b) \<noteq> None"
    using Cons.prems(2) by auto
  from layout_frame [OF b2 all, of sf h "js_add s h"] run
  have fr: "\<forall>r. Some r \<notin> (\<lambda>b. managerButtons bk (business_name b)) ` set bs \<longrightarrow>
                 map_option transform (objs w' r) = map_option transform (objs w2 r)"
    by simp
  have t1: "map_option transform (objs w1 m) =
      Some (map_component Scale (assign (\<lambda>_. (sf, sf, sf))) (transform M))"
    by (simp add: w1_def change_transform M)
  then obtain M1 where M1: "objs w1 m = Some M1"
    and tM1: "transform M1 = map_component Scale (assign (\<lambda>_. (sf, sf, sf))) (transform M)"
    by auto
  have t2: "map_option transform (objs w2 m) =
      Some (map_component Position (assign (\<lambda>(x, y, z). (x, s, z))) (transform M1))"
    by (simp add: w2_def change_transform M1)
  show ?case
  proof (intro allI impI)
    fix i
    assume i: "i < length (b # bs)"
      and last: "business_name ((b # bs) ! i) \<notin> business_name ` set (drop (Suc i) (b # bs))"
    show "\<exists>m M. managerButtons bk (business_name ((b # bs) ! i)) = Some m \<and> objs w' m = Some M
        \<and> vec_y (position (transform M)) = ((\<lambda>y. js_add y h) ^^ i) s
        \<and> vec_x (scale (transform M)) = sf \<and> vec_y (scale (transform M)) = sf"
    proof (cases i)
      case 0
      have "Some m \<notin> (\<lambda>b. managerButtons bk (business_name b)) ` set bs"
      proof
        assume "Some m \<in> (\<lambda>b. managerButtons bk (business_name b)) ` set bs"
        then obtain b' where b': "b' \<in> set bs"
          and eq: "managerButtons bk (business_name b') = managerButtons bk (business_name b)"
          using m by auto
        have "business_name b' = business_name b"
        proof (rule inj_onD [OF Cons.prems(3) eq])
          show "business_name b' \<in> business_name ` set (b # bs)" using b' by simp
          show "business_name b \<in> business_name ` set (b # bs)" by simp
        qed
        moreover have "business_name b \<notin> business_name ` set bs"
          using last 0 by simp
        ultimately show False using b' by (metis imageI)
      qed
      then have "map_option transform (objs w' m) = map_option transform (objs w2 m)"
        using fr by blast
      then obtain M' where M': "objs w' m = Some M'"
        and tM': "transform M' =
           map_component Position (assign (\<lambda>(x, y, z). (x, s, z))) (transform M1)"
        using t2 by auto
      have "vec_y (position (transform M')) = s" "vec_x (scale (transform M')) = sf"
        "vec_y (scale (transform M')) = sf"
        by (simp_all add: tM' tM1 assign_def)
      then show ?thesis using 0 m M' by simp
    next
      case (Suc j)
      then have j: "j < length bs" using i by simp
      have lastj: "business_name (bs ! j) \<notin> business_name ` set (drop (Suc j) bs)"
        using last Suc by simp
      from IH j lastj obtain m' M' where
        "managerButtons bk (business_name (bs ! j)) = Some m'" "objs w' m' = Some M'"
        "vec_y (position (transform M')) = ((\<lambda>y. js_add y h) ^^ j) (js_add s h)"
        "vec_x (scale (transform M')) = sf" "vec_y (scale (transform M')) = sf"
        by blast
      moreover have "((\<lambda>y. js_add y h) ^^ Suc j) s = ((\<lambda>y. js_add y h) ^^ j) (js_add s h)"
        by (simp only: funpow_Suc_right comp_apply)
      ultimately show ?thesis using Suc by (simp del: funpow.simps)
    qed
  qed
qed

lemma funpow_js_add_exact:
  assumes "\<forall>j<i. round_double (s + real (Suc j) * h) = Num (s + real (Suc j) * h)"
  shows "((\<lambda>y. js_add y (Num h)) ^^ i) (Num s) = Num (s + real i * h)"
  using assms
proof (induction i)
  case 0
  show ?case by simp
next
  case (Suc i)
  have IH: "((\<lambda>y. js_add y (Num h)) ^^ i) (Num s) = Num (s + real i * h)"
    using Suc by simp
  have r: "round_double (s + real (Suc i) * h) = Num (s + real (Suc i) * h)"
    using Suc.prems by blast
  have e: "s + real i * h + h = s + real (Suc i) * h" by (simp add: algebra_simps)
  show ?case by (simp only: funpow.simps comp_apply IH js_add.simps e r)
qed

lemma load_eq:
  assumes "banks (Actor_load this w) this = Some bk"
    and "getDisplayComponent this ''balanceText'' (Actor_load this w) = Some t"
    and "objs (Actor_load this w) t = Some T"
    and "businesses (objectData bk) = b0 # rest"
    and "managerButtons bk (business_name b0) = Some m0"
    and "objs (Actor_load this w) m0 = Some M0"
  shows "load Actor_load this w =
      layout this
        (js_div (js_div (js_sub (innerHeight (Actor_load this w))
                    (js_add (vec_y (position (transform T))) (pixi_height (container T))))
                  (Num (real (length (b0 # rest)))))
                (pixi_height (container M0)))
        (js_div (js_sub (innerHeight (Actor_load this w))
                    (js_add (vec_y (position (transform T))) (pixi_height (container T))))
                  (Num (real (length (b0 # rest)))))
        (b0 # rest)
        (js_add (vec_y (position (transform T))) (pixi_height (container T)))
        (Actor_load this w)"
  using assms by (simp add: load_def Let_def del: layout.simps)

lemma load_layout:
  assumes bank: "banks (Actor_load this w) this = Some bk"
    and label: "getDisplayComponent this ''balanceText'' (Actor_load this w) = Some t"
      "objs (Actor_load this w) t = Some T"
    and bs: "businesses (objectData bk) = bs" "bs \<noteq> []"
    and entries: "\<forall>b\<in>set bs. \<exists>m. managerButtons bk (business_name b) = Some m
                     \<and> objs (Actor_load this w) m \<noteq> None"
    and inj: "inj_on (managerButtons bk) (business_name ` set bs)"
    and first: "managerButtons bk (business_name (hd bs)) = Some m0"
      "objs (Actor_load this w) m0 = Some M0"
  defines "startingHeight \<equiv> js_add (vec_y (position (transform T))) (pixi_height (container T))"
  defines "availableRoom \<equiv> js_sub (innerHeight (Actor_load this w)) startingHeight"
  defines "heightPerButton \<equiv> js_div availableRoom (Num (real (length bs)))"
  defines "scaleFactor \<equiv> js_div heightPerButton (pixi_height (container M0))"
  shows "\<exists>w'. load Actor_load this w = Inr w'
     \<and> (\<forall>i<length bs. business_name (bs ! i) \<notin> business_name ` set (drop (Suc i) bs) \<longrightarrow>
          (\<exists>m M. managerButtons bk (business_name (bs ! i)) = Some m \<and> objs w' m = Some M
             \<and> vec_y (position (transform M)) = ((\<lambda>y. js_add y heightPerButton) ^^ i) startingHeight
             \<and> vec_x (scale (transform M)) = scaleFactor
             \<and> vec_y (scale (transform M)) = scaleFactor))
     \<and> (\<forall>r. Some r \<notin> (\<lambda>b. managerButtons bk (business_name b)) ` set bs \<longrightarrow>
            map_option transform (objs w' r) = map_option transform (objs (Actor_load this w) r))"
proof -
  from bs obtain b0 rest where br: "bs = b0 # rest" by (cases bs) auto
  have eq: "load Actor_load this w =
      layout this scaleFactor heightPerButton bs startingHeight (Actor_load this w)"
    using load_eq [of Actor_load this w, OF bank label(1,2) bs(1) [unfolded br]
        first(1) [unfolded br list.sel] first(2)]
    unfolding br [symmetric] scaleFactor_def heightPerButton_def availableRoom_def
      startingHeight_def .
  have all: "\<forall>b\<in>set bs. managerButtons bk (business_name b) \<noteq> None"
    using entries by auto
  from layout_frame [of "Actor_load this w", OF bank all, of scaleFactor heightPerButton
      startingHeight]
  obtain w' where w': "layout this scaleFactor heightPerButton bs startingHeight
      (Actor_load this w) = Inr w'"
    and fr: "\<forall>r. Some r \<notin> (\<lambda>b. managerButtons bk (business_name b)) ` set bs \<longrightarrow>
            map_option transform (objs w' r) = map_option transform (objs (Actor_load this w) r)"
    by blast
  note pos = layout_positions [of "Actor_load this w", OF bank entries inj w']
  show ?thesis unfolding eq using w' pos fr by (intro exI [of _ w'] conjI)
qed

text \<open>
  Claim C1. For a bank with N > 0 businesses whose manager buttons exist, with different
  buttons for different names, \<open>load()\<close> succeeds and lays the buttons out by these
  values, each computed in double arithmetic (the exact result rounded to the nearest
  double): startingHeight = balance text y + measured text height, availableRoom = window
  height - startingHeight, heightPerButton = availableRoom / N, scaleFactor =
  heightPerButton / natural height of the first business's button. For every business
  whose name does not occur again later in the array (every business, when the names are
  pairwise different), the button stored under its name gets the scale (scaleFactor,
  scaleFactor) and the y that i successive additions of heightPerButton to
  startingHeight give, i being the index of the business. An object that is not stored in
  \<open>managerButtons\<close> under the name of a business, such as the button of an earlier
  business whose name is repeated, keeps its transform: it is neither scaled nor placed.
  Whenever the sums and quotients involved are doubles themselves, nothing is rounded:
  the values are the exact ones and the i-th y is startingHeight + i * heightPerButton.
\<close>

theorem load_lays_out_buttons:
  assumes bank: "banks (Actor_load this w) this = Some bk"
    and label: "getDisplayComponent this ''balanceText'' (Actor_load this w) = Some t"
      "objs (Actor_load this w) t = Some T"
    and bs: "businesses (objectData bk) = bs" "bs \<noteq> []"
    and entries: "\<forall>b\<in>set bs. \<exists>m. managerButtons bk (business_name b) = Some m
                     \<and> objs (Actor_load this w) m \<noteq> None"
    and inj: "inj_on (managerButtons bk) (business_name ` set bs)"
    and first: "managerButtons bk (business_name (hd bs)) = Some m0"
      "objs (Actor_load this w) m0 = Some M0"
  defines "startingHeight \<equiv> js_add (vec_y (position (transform T))) (pixi_height (container T))"
  defines "availableRoom \<equiv> js_sub (innerHeight (Actor_load this w)) startingHeight"
  defines "heightPerButton \<equiv> js_div availableRoom (Num (real (length bs)))"
  defines "scaleFactor \<equiv> js_div heightPerButton (pixi_height (container M0))"
  shows "(\<exists>w'. load Actor_load this w = Inr w'
     \<and> (\<forall>i<length bs. business_name (bs ! i) \<notin> business_name ` set (drop (Suc i) bs) \<longrightarrow>
          (\<exists>m M. managerButtons bk (business_name (bs ! i)) = Some m \<and> objs w' m = Some M
             \<and> vec_y (position (transform M)) = ((\<lambda>y. js_add y heightPerButton) ^^ i) startingHeight
             \<and> vec_x (scale (transform M)) = scaleFactor
             \<and> vec_y (scale (transform M)) = scaleFactor))
     \<and> (\<forall>r. Some r \<notin> (\<lambda>b. managerButtons bk (business_name b)) ` set bs \<longrightarrow>
            map_option transform (objs w' r) = map_option transform (objs (Actor_load this w) r)))
   \<and> (\<forall>ty th H h0 n.
         vec_y (position (transform T)) = Num ty \<and> pixi_height (container T) = Num th
         \<and> innerHeight (Actor_load this w) = Num H
         \<and> pixi_height (container M0) = Num h0 \<and> h0 \<noteq> 0
         \<and> round_double (ty + th) = Num (ty + th)
         \<and> round_double (H - (ty + th)) = Num (H - (ty + th))
         \<and> round_double ((H - (ty + th)) / real (length bs))
             = Num ((H - (ty + th)) / real (length bs))
         \<and> round_double ((H - (ty + th)) / real (length bs) / h0)
             = Num ((H - (ty + th)) / real (length bs) / h0)
         \<and> (\<forall>j<n. round_double (ty + th + real (Suc j) * ((H - (ty + th)) / real (length bs)))
                     = Num (ty + th + real (Suc j) * ((H - (ty + th)) / real (length bs)))) \<longrightarrow>
           startingHeight = Num (ty + th)
         \<and> availableRoom = Num (H - (ty + th))
         \<and> heightPerButton = Num ((H - (ty + th)) / real (length bs))
         \<and> scaleFactor = Num ((H - (ty + th)) / real (length bs) / h0)
         \<and> (\<forall>i\<le>n. ((\<lambda>y. js_add y heightPerButton) ^^ i) startingHeight
                 = Num (ty + th + real i * ((H - (ty + th)) / real (length bs)))))"
proof
  show "\<exists>w'. load Actor_load this w = Inr w'
     \<and> (\<forall>i<length bs. business_name (bs ! i) \<notin> business_name ` set (drop (Suc i) bs) \<longrightarrow>
          (\<exists>m M. managerButtons bk (business_name (bs ! i)) = Some m \<and> objs w' m = Some M
             \<and> vec_y (position (transform M)) = ((\<lambda>y. js_add y heightPerButton) ^^ i) startingHeight
             \<and> vec_x (scale (transform M)) = scaleFactor
             \<and> vec_y (scale (transform M)) = scaleFactor))
     \<and> (\<forall>r. Some r \<notin> (\<lambda>b. managerButtons bk (business_name b)) ` set bs \<longrightarrow>
            map_option transform (objs w' r) = map_option transform (objs (Actor_load this w) r))"
    unfolding scaleFactor_def heightPerButton_def availableRoom_def startingHeight_def
    by (rule load_layout [of Actor_load this w, OF bank label bs entries inj first])
next
  have len: "real (length bs) \<noteq> 0" using bs(2) by simp
  show "\<forall>ty th H h0 n.
         vec_y (position (transform T)) = Num ty \<and> pixi_height (container T) = Num th
         \<and> innerHeight (Actor_load this w) = Num H
         \<and> pixi_height (container M0) = Num h0 \<and> h0 \<noteq> 0
         \<and> round_double (ty + th) = Num (ty + th)
         \<and> round_double (H - (ty + th)) = Num (H - (ty + th))
         \<and> round_double ((H - (ty + th)) / real (length bs))
             = Num ((H - (ty + th)) / real (length bs))
         \<and> round_double ((H - (ty + th)) / real (length bs) / h0)
             = Num ((H - (ty + th)) / real (length bs) / h0)
         \<and> (\<forall>j<n. round_double (ty + th + real (Suc j) * ((H - (ty + th)) / real (length bs)))
                     = Num (ty + th + real (Suc j) * ((H - (ty + th)) / real (length bs)))) \<longrightarrow>
           startingHeight = Num (ty + th)
         \<and> availableRoom = Num (H - (ty + th))
         \<and> heightPerButton = Num ((H - (ty + th)) / real (length bs))
         \<and> scaleFactor = Num ((H - (ty + th)) / real (length bs) / h0)
         \<and> (\<forall>i\<le>n. ((\<lambda>y. js_add y heightPerButton) ^^ i) startingHeight
                 = Num (ty + th + real i * ((H - (ty + th)) / real (length bs))))"
  proof (intro allI impI)
    fix ty th H h0 n
    assume a: "vec_y (position (transform T)) = Num ty \<and> pixi_height (container T) = Num th
         \<and> innerHeight (Actor_load this w) = Num H
         \<and> pixi_height (container M0) = Num h0 \<and> h0 \<noteq> 0
         \<and> round_double (ty + th) = Num (ty + th)
         \<and> round_double (H - (ty + th)) = Num (H - (ty + th))
         \<and> round_double ((H - (ty + th)) / real (length bs))
             = Num ((H - (ty + th)) / real (length bs))
         \<and> round_double ((H - (ty + th)) / real (length bs) / h0)
             = Num ((H - (ty + th)) / real (length bs) / h0)
         \<and> (\<forall>j<n. round_double (ty + th + real (Suc j) * ((H - (ty + th)) / real (length bs)))
                     = Num (ty + th + real (Suc j) * ((H - (ty + th)) / real (length bs))))"
    from a have a1: "vec_y (position (transform T)) = Num ty"
      and a2: "pixi_height (container T) = Num th"
      and a3: "innerHeight (Actor_load this w) = Num H"
      and a4: "pixi_height (container M0) = Num h0"
      and a5: "h0 \<noteq> 0"
      and a6: "round_double (ty + th) = Num (ty + th)"
      and a7: "round_double (H - (ty + th)) = Num (H - (ty + th))"
      and a8: "round_double ((H - (ty + th)) / real (length bs))
             = Num ((H - (ty + th)) / real (length bs))"
      and a9: "round_double ((H - (ty + th)) / real (length bs) / h0)
             = Num ((H - (ty + th)) / real (length bs) / h0)"
      and a10: "\<forall>j<n. round_double (ty + th + real (Suc j) * ((H - (ty + th)) / real (length bs)))
                     = Num (ty + th + real (Suc j) * ((H - (ty + th)) / real (length bs)))"
      by blast+
    have st: "startingHeight = Num (ty + th)"
      by (simp only: startingHeight_def a1 a2 js_add.simps a6)
    have av: "availableRoom = Num (H - (ty + th))"
      by (simp only: availableRoom_def st a3 js_sub_def js_neg.simps js_add.simps
            add_uminus_conv_diff a7)
    have hp: "heightPerButton = Num ((H - (ty + th)) / real (length bs))"
      by (simp only: heightPerButton_def av js_div.simps len simp_thms if_True a8)
    have sf: "scaleFactor = Num ((H - (ty + th)) / real (length bs) / h0)"
      by (simp only: scaleFactor_def hp a4 js_div.simps a5 simp_thms if_True a9)
    have "\<forall>i\<le>n. ((\<lambda>y. js_add y heightPerButton) ^^ i) startingHeight
                 = Num (ty + th + real i * ((H - (ty + th)) / real (length bs)))"
    proof (intro allI impI)
      fix i assume i: "i \<le> n"
      have "\<forall>j<i. round_double (ty + th + real (Suc j) * ((H - (ty + th)) / real (length bs)))
                     = Num (ty + th + real (Suc j) * ((H - (ty + th)) / real (length bs)))"
      proof (intro allI impI)
        fix j assume "j < i"
        then have "j < n" using i by simp
        then show "round_double (ty + th + real (Suc j) * ((H - (ty + th)) / real (length bs)))
                     = Num (ty + th + real (Suc j) * ((H - (ty + th)) / real (length bs)))"
          using a10 by blast
      qed
      then show "((\<lambda>y. js_add y heightPerButton) ^^ i) startingHeight
                 = Num (ty + th + real i * ((H - (ty + th)) / real (length bs)))"
        unfolding st hp by (rule funpow_js_add_exact)
    qed
    then show "startingHeight = Num (ty + th)
         \<and> availableRoom = Num (H - (ty + th))
         \<and> heightPerButton = Num ((H - (ty + th)) / real (length bs))
         \<and> scaleFactor = Num ((H - (ty + th)) / real (length bs) / h0)
         \<and> (\<forall>i\<le>n. ((\<lambda>y. js_add y heightPerButton) ^^ i) startingHeight
                 = Num (ty + th + real i * ((H - (ty + th)) / real (length bs))))"
      using st av hp sf by blast
  qed
qed

lemma measure_heights_fields [simp]:
  "banks (measure_heights this w) = banks w"
  "actors (measure_heights this w) = actors w"
  "innerHeight (measure_heights this w) = innerHeight w"
  "getDisplayComponent this' n (measure_heights this w) = getDisplayComponent this' n w"
  by (simp_all add: measure_heights_def getDisplayComponent_def)

lemma measure_heights_objs:
  "objs w r = Some R \<Longrightarrow>
   objs (measure_heights this w) r =
     Some (R\<lparr>container := (container R)
                  \<lparr>pixi_height :=
                     (if getDisplayComponent this ''balanceText'' w = Some r then Num 80
                      else Num 200)\<rparr>\<rparr>)"
  by (simp add: measure_heights_def)

lemma scenario_start_facts:
  "\<exists>bk. banks scenario_start 0 = Some bk
     \<and> businesses (objectData bk) = scenario_businesses
     \<and> managerButtons bk = map_of (rev (zip (map business_name scenario_businesses) [2, 6, 10]))
     \<and> (\<forall>b\<in>set scenario_businesses. \<exists>m. managerButtons bk (business_name b) = Some m
            \<and> objs scenario_start m = Some (constructed m))
     \<and> inj_on (managerButtons bk) (business_name ` set scenario_businesses)"
  "getDisplayComponent 0 ''balanceText'' scenario_start = Some 1"
  "objs scenario_start 1 = Some (balanceText_object 1)"
  "objs scenario_start 2 = Some (constructed 2)"
  "innerHeight scenario_start = Num 680"
proof -
  define w0 where "w0 = empty_world\<lparr>innerHeight := Num 680\<rparr>"
  have n: "next_ref w0 = 0" by (simp add: w0_def empty_world_def)
  have bs: "businesses example_data = scenario_businesses" by (simp add: example_data_def)
  have len: "length scenario_businesses = 3" by (simp add: scenario_businesses_def)
  have refs: "button_refs (0 + 2) 3 = [2, 6, 10]"
    by (simp add: button_refs_def upt_rec)
  from new_VentureBank_ready [where d = example_data and w = w0, unfolded n bs,
      folded w0_def scenario_start_def]
  obtain bk where bk: "banks scenario_start 0 = Some bk" "objectData bk = example_data"
    "\<forall>b\<in>set scenario_businesses. \<exists>m. managerButtons bk (business_name b) = Some m
            \<and> objs scenario_start m = Some (constructed m)"
    "inj_on (managerButtons bk) (business_name ` set scenario_businesses)"
    and label: "getDisplayComponent 0 ''balanceText'' scenario_start = Some (0 + 1)"
    and obj: "objs scenario_start (0 + 1) = Some (balanceText_object (0 + 1))"
    unfolding scenario_start_def w0_def by blast
  have "banks scenario_start 0 = Some ((initial_bank example_data)\<lparr>managerButtons :=
          map_of (rev (zip (map business_name scenario_businesses) [2, 6, 10]))\<rparr>)"
    using new_VentureBank_bank [where d = example_data and w = w0, unfolded n bs len refs]
    by (simp add: scenario_start_def w0_def)
  then have mb: "managerButtons bk =
      map_of (rev (zip (map business_name scenario_businesses) [2, 6, 10]))"
    using bk(1) by simp
  show "\<exists>bk. banks scenario_start 0 = Some bk
     \<and> businesses (objectData bk) = scenario_businesses
     \<and> managerButtons bk = map_of (rev (zip (map business_name scenario_businesses) [2, 6, 10]))
     \<and> (\<forall>b\<in>set scenario_businesses. \<exists>m. managerButtons bk (business_name b) = Some m
            \<and> objs scenario_start m = Some (constructed m))
     \<and> inj_on (managerButtons bk) (business_name ` set scenario_businesses)"
    using bk mb bs by (intro exI [of _ bk] conjI) simp_all
  show "getDisplayComponent 0 ''balanceText'' scenario_start = Some 1"
    using label by simp
  show "objs scenario_start 1 = Some (balanceText_object 1)"
    using obj by simp
  show "objs scenario_start 2 = Some (constructed 2)"
    using new_VentureBank_objs [where d = example_data and w = w0 and r = 2, unfolded n bs len]
    by (simp add: scenario_start_def w0_def)
  show "innerHeight scenario_start = Num 680"
    by (simp add: scenario_start_def new_VentureBank_innerHeight)
qed

text \<open>
  The scenario of the spec: text height 80 at y = 0, window height 680, three businesses
  with natural button height 200. The available room is 600, the slot per button 200,
  the scale factor 1, and the buttons are placed at y = 80, 280 and 480.
\<close>

theorem load_lays_out_buttons_witness:
  "(\<exists>w'. load measure_heights 0 scenario_start = Inr w'
     \<and> map (\<lambda>m. map_option (\<lambda>M. (vec_y (position (transform M)), vec_x (scale (transform M)),
                                 vec_y (scale (transform M)))) (objs w' m)) [2, 6, 10]
       = [Some (Num 80, Num 1, Num 1), Some (Num 280, Num 1, Num 1), Some (Num 480, Num 1, Num 1)])
   \<and> (\<exists>T M0. objs (measure_heights 0 scenario_start) 1 = Some T
         \<and> objs (measure_heights 0 scenario_start) 2 = Some M0
         \<and> js_sub (innerHeight (measure_heights 0 scenario_start))
              (js_add (vec_y (position (transform T))) (pixi_height (container T))) = Num 600
         \<and> js_div (Num 600) (Num (real (length scenario_businesses))) = Num 200
         \<and> js_div (Num 200) (pixi_height (container M0)) = Num 1)"
proof -
  from scenario_start_facts(1) obtain bk where bank: "banks scenario_start 0 = Some bk"
    and bs: "businesses (objectData bk) = scenario_businesses"
    and mb: "managerButtons bk =
               map_of (rev (zip (map business_name scenario_businesses) [2, 6, 10]))"
    and entries: "\<forall>b\<in>set scenario_businesses. \<exists>m. managerButtons bk (business_name b) = Some m
            \<and> objs scenario_start m = Some (constructed m)"
    and inj: "inj_on (managerButtons bk) (business_name ` set scenario_businesses)"
    by blast
  define T where "T = (balanceText_object 1)\<lparr>container :=
      (container (balanceText_object 1))\<lparr>pixi_height := Num 80\<rparr>\<rparr>"
  define M0 where "M0 = (constructed 2)\<lparr>container :=
      (container (constructed 2))\<lparr>pixi_height := Num 200\<rparr>\<rparr>"
  have h1: "banks (measure_heights 0 scenario_start) 0 = Some bk" using bank by simp
  have h2: "getDisplayComponent 0 ''balanceText'' (measure_heights 0 scenario_start) = Some 1"
    by (simp add: scenario_start_facts(2))
  have h3: "objs (measure_heights 0 scenario_start) 1 = Some T"
    using measure_heights_objs [OF scenario_start_facts(3), of 0]
    by (simp add: scenario_start_facts(2) T_def)
  have h4: "vec_y (position (transform T)) = Num 0" and h5: "pixi_height (container T) = Num 80"
    by (simp_all add: T_def balanceText_object_def assign_def constructed_def Transform_new_def)
  have h6: "innerHeight (measure_heights 0 scenario_start) = Num 680"
    by (simp add: scenario_start_facts(5))
  have ne: "scenario_businesses \<noteq> []" by (simp add: scenario_businesses_def)
  have h7: "\<forall>b\<in>set scenario_businesses. \<exists>m. managerButtons bk (business_name b) = Some m
       \<and> objs (measure_heights 0 scenario_start) m \<noteq> None"
  proof
    fix b assume "b \<in> set scenario_businesses"
    with entries obtain m where "managerButtons bk (business_name b) = Some m"
      "objs scenario_start m = Some (constructed m)" by blast
    then show "\<exists>m. managerButtons bk (business_name b) = Some m
       \<and> objs (measure_heights 0 scenario_start) m \<noteq> None"
      by (auto simp add: measure_heights_objs)
  qed
  have h8: "managerButtons bk (business_name (hd scenario_businesses)) = Some 2"
    by (simp add: mb scenario_businesses_def)
  have h9: "objs (measure_heights 0 scenario_start) 2 = Some M0"
    using measure_heights_objs [OF scenario_start_facts(4), of 0]
    by (simp add: scenario_start_facts(2) M0_def)
  have h10: "pixi_height (container M0) = Num 200" by (simp add: M0_def)
  note L = load_lays_out_buttons [of measure_heights 0 scenario_start,
      OF h1 h2 h3 bs ne h7 inj h8 h9]
  have len: "length scenario_businesses = 3" by (simp add: scenario_businesses_def)
  have f5: "(200::real) \<noteq> 0" by simp
  have f6: "round_double (0 + 80) = Num (0 + 80)"
    and f7: "round_double (680 - (0 + 80)) = Num (680 - (0 + 80))"
    and f8: "round_double ((680 - (0 + 80)) / real (length scenario_businesses))
        = Num ((680 - (0 + 80)) / real (length scenario_businesses))"
    and f9: "round_double ((680 - (0 + 80)) / real (length scenario_businesses) / 200)
        = Num ((680 - (0 + 80)) / real (length scenario_businesses) / 200)"
    by (simp_all add: len round_double_exact)
  have f10: "\<forall>j<2. round_double
          (0 + 80 + real (Suc j) * ((680 - (0 + 80)) / real (length scenario_businesses)))
        = Num (0 + 80 + real (Suc j) * ((680 - (0 + 80)) / real (length scenario_businesses)))"
  proof (intro allI impI)
    fix j :: nat
    assume "j < 2"
    then have "j = 0 \<or> j = 1" by arith
    then show "round_double
          (0 + 80 + real (Suc j) * ((680 - (0 + 80)) / real (length scenario_businesses)))
        = Num (0 + 80 + real (Suc j) * ((680 - (0 + 80)) / real (length scenario_businesses)))"
      by (auto simp add: len round_double_exact)
  qed
  have finite: "vec_y (position (transform T)) = Num 0 \<and> pixi_height (container T) = Num 80
      \<and> innerHeight (measure_heights 0 scenario_start) = Num 680
      \<and> pixi_height (container M0) = Num 200 \<and> (200::real) \<noteq> 0
      \<and> round_double (0 + 80) = Num (0 + 80)
      \<and> round_double (680 - (0 + 80)) = Num (680 - (0 + 80))
      \<and> round_double ((680 - (0 + 80)) / real (length scenario_businesses))
          = Num ((680 - (0 + 80)) / real (length scenario_businesses))
      \<and> round_double ((680 - (0 + 80)) / real (length scenario_businesses) / 200)
          = Num ((680 - (0 + 80)) / real (length scenario_businesses) / 200)
      \<and> (\<forall>j<2. round_double
            (0 + 80 + real (Suc j) * ((680 - (0 + 80)) / real (length scenario_businesses)))
          = Num (0 + 80 + real (Suc j) * ((680 - (0 + 80)) / real (length scenario_businesses))))"
    by (intro conjI h4 h5 h6 h10 f5 f6 f7 f8 f9 f10)
  note V = L [THEN conjunct2, rule_format, OF finite]
  note V1 = V [THEN conjunct1]
  note V2 = V [THEN conjunct2, THEN conjunct1]
  note V3 = V [THEN conjunct2, THEN conjunct2, THEN conjunct1]
  note V4 = V [THEN conjunct2, THEN conjunct2, THEN conjunct2, THEN conjunct1]
  note V5 = V [THEN conjunct2, THEN conjunct2, THEN conjunct2, THEN conjunct2, rule_format,
      unfolded V3, unfolded V1]
  from L [THEN conjunct1, unfolded V4, unfolded V3, unfolded V1]
  obtain w' where ok: "load measure_heights 0 scenario_start = Inr w'"
    and pos: "\<forall>i<length scenario_businesses.
       business_name (scenario_businesses ! i)
         \<notin> business_name ` set (drop (Suc i) scenario_businesses) \<longrightarrow>
       (\<exists>m M. managerButtons bk (business_name (scenario_businesses ! i)) = Some m
          \<and> objs w' m = Some M
          \<and> vec_y (position (transform M)) =
               ((\<lambda>y. js_add y (Num ((680 - (0 + 80)) / real (length scenario_businesses)))) ^^ i)
                 (Num (0 + 80))
          \<and> vec_x (scale (transform M)) =
               Num ((680 - (0 + 80)) / real (length scenario_businesses) / 200)
          \<and> vec_y (scale (transform M)) =
               Num ((680 - (0 + 80)) / real (length scenario_businesses) / 200))"
    by blast
  have sfv: "Num ((680 - (0 + 80)) / real (length scenario_businesses) / 200) = Num 1"
    by (simp add: len)
  have y0: "((\<lambda>y. js_add y (Num ((680 - (0 + 80)) / real (length scenario_businesses)))) ^^ 0)
                 (Num (0 + 80)) = Num 80"
  proof -
    have "((\<lambda>y. js_add y (Num ((680 - (0 + 80)) / real (length scenario_businesses)))) ^^ 0)
                 (Num (0 + 80))
        = Num (0 + 80 + real 0 * ((680 - (0 + 80)) / real (length scenario_businesses)))"
      by (rule V5) simp
    also have "\<dots> = Num 80" by simp
    finally show ?thesis .
  qed
  have y1: "((\<lambda>y. js_add y (Num ((680 - (0 + 80)) / real (length scenario_businesses)))) ^^ 1)
                 (Num (0 + 80)) = Num 280"
  proof -
    have "((\<lambda>y. js_add y (Num ((680 - (0 + 80)) / real (length scenario_businesses)))) ^^ 1)
                 (Num (0 + 80))
        = Num (0 + 80 + real 1 * ((680 - (0 + 80)) / real (length scenario_businesses)))"
      by (rule V5) simp
    also have "\<dots> = Num 280" by (simp add: len)
    finally show ?thesis .
  qed
  have y2: "((\<lambda>y. js_add y (Num ((680 - (0 + 80)) / real (length scenario_businesses)))) ^^ 2)
                 (Num (0 + 80)) = Num 480"
  proof -
    have "((\<lambda>y. js_add y (Num ((680 - (0 + 80)) / real (length scenario_businesses)))) ^^ 2)
                 (Num (0 + 80))
        = Num (0 + 80 + real 2 * ((680 - (0 + 80)) / real (length scenario_businesses)))"
      by (rule V5) simp
    also have "\<dots> = Num 480" by (simp add: len)
    finally show ?thesis .
  qed
  have i0: "0 < length scenario_businesses" and i1: "1 < length scenario_businesses"
    and i2: "2 < length scenario_businesses"
    by (simp_all add: len)
  have l0: "business_name (scenario_businesses ! 0)
         \<notin> business_name ` set (drop (Suc 0) scenario_businesses)"
    and l1: "business_name (scenario_businesses ! 1)
         \<notin> business_name ` set (drop (Suc 1) scenario_businesses)"
    and l2: "business_name (scenario_businesses ! 2)
         \<notin> business_name ` set (drop (Suc 2) scenario_businesses)"
    by (simp_all add: scenario_businesses_def)
  have n0: "managerButtons bk (business_name (scenario_businesses ! 0)) = Some 2"
    and n1: "managerButtons bk (business_name (scenario_businesses ! 1)) = Some 6"
    and n2: "managerButtons bk (business_name (scenario_businesses ! 2)) = Some 10"
    by (simp_all add: mb scenario_businesses_def)
  note P = pos [rule_format]
  have p0: "map_option (\<lambda>M. (vec_y (position (transform M)),
      vec_x (scale (transform M)), vec_y (scale (transform M)))) (objs w' 2)
      = Some (Num 80, Num 1, Num 1)"
  proof -
    from P [OF i0 l0] obtain m M where
      m: "managerButtons bk (business_name (scenario_businesses ! 0)) = Some m"
      and M: "objs w' m = Some M"
      and y: "vec_y (position (transform M)) =
               ((\<lambda>y. js_add y (Num ((680 - (0 + 80)) / real (length scenario_businesses)))) ^^ 0)
                 (Num (0 + 80))"
      and sx: "vec_x (scale (transform M)) =
               Num ((680 - (0 + 80)) / real (length scenario_businesses) / 200)"
      and sy: "vec_y (scale (transform M)) =
               Num ((680 - (0 + 80)) / real (length scenario_businesses) / 200)"
      by blast
    have "m = 2" using m n0 by simp
    then show ?thesis using M y [unfolded y0] sx [unfolded sfv] sy [unfolded sfv] by simp
  qed
  have p1: "map_option (\<lambda>M. (vec_y (position (transform M)),
      vec_x (scale (transform M)), vec_y (scale (transform M)))) (objs w' 6)
      = Some (Num 280, Num 1, Num 1)"
  proof -
    from P [OF i1 l1] obtain m M where
      m: "managerButtons bk (business_name (scenario_businesses ! 1)) = Some m"
      and M: "objs w' m = Some M"
      and y: "vec_y (position (transform M)) =
               ((\<lambda>y. js_add y (Num ((680 - (0 + 80)) / real (length scenario_businesses)))) ^^ 1)
                 (Num (0 + 80))"
      and sx: "vec_x (scale (transform M)) =
               Num ((680 - (0 + 80)) / real (length scenario_businesses) / 200)"
      and sy: "vec_y (scale (transform M)) =
               Num ((680 - (0 + 80)) / real (length scenario_businesses) / 200)"
      by blast
    have "m = 6" using m n1 by simp
    then show ?thesis using M y [unfolded y1] sx [unfolded sfv] sy [unfolded sfv] by simp
  qed
  have p2: "map_option (\<lambda>M. (vec_y (position (transform M)),
      vec_x (scale (transform M)), vec_y (scale (transform M)))) (objs w' 10)
      = Some (Num 480, Num 1, Num 1)"
  proof -
    from P [OF i2 l2] obtain m M where
      m: "managerButtons bk (business_name (scenario_businesses ! 2)) = Some m"
      and M: "objs w' m = Some M"
      and y: "vec_y (position (transform M)) =
               ((\<lambda>y. js_add y (Num ((680 - (0 + 80)) / real (length scenario_businesses)))) ^^ 2)
                 (Num (0 + 80))"
      and sx: "vec_x (scale (transform M)) =
               Num ((680 - (0 + 80)) / real (length scenario_businesses) / 200)"
      and sy: "vec_y (scale (transform M)) =
               Num ((680 - (0 + 80)) / real (length scenario_businesses) / 200)"
      by blast
    have "m = 10" using m n2 by simp
    then show ?thesis using M y [unfolded y2] sx [unfolded sfv] sy [unfolded sfv] by simp
  qed
  have "map (\<lambda>m. map_option (\<lambda>M. (vec_y (position (transform M)), vec_x (scale (transform M)),
                                 vec_y (scale (transform M)))) (objs w' m)) [2, 6, 10]
       = [Some (Num 80, Num 1, Num 1), Some (Num 280, Num 1, Num 1), Some (Num 480, Num 1, Num 1)]"
    by (simp only: list.map p0 p1 p2)
  with ok have part1: "\<exists>w'. load measure_heights 0 scenario_start = Inr w'
     \<and> map (\<lambda>m. map_option (\<lambda>M. (vec_y (position (transform M)), vec_x (scale (transform M)),
                                 vec_y (scale (transform M)))) (objs w' m)) [2, 6, 10]
       = [Some (Num 80, Num 1, Num 1), Some (Num 280, Num 1, Num 1), Some (Num 480, Num 1, Num 1)]"
    by (intro exI [of _ w'] conjI)
  have "js_sub (innerHeight (measure_heights 0 scenario_start))
              (js_add (vec_y (position (transform T))) (pixi_height (container T))) = Num 600"
    using V2 by simp
  moreover have "js_div (Num 600) (Num (real (length scenario_businesses))) = Num 200"
    "js_div (Num 200) (pixi_height (container M0)) = Num 1"
    by (simp_all add: len h10 round_double_exact)
  ultimately have part2: "\<exists>T M0. objs (measure_heights 0 scenario_start) 1 = Some T
         \<and> objs (measure_heights 0 scenario_start) 2 = Some M0
         \<and> js_sub (innerHeight (measure_heights 0 scenario_start))
              (js_add (vec_y (position (transform T))) (pixi_height (container T))) = Num 600
         \<and> js_div (Num 600) (Num (real (length scenario_businesses))) = Num 200
         \<and> js_div (Num 200) (pixi_height (container M0)) = Num 1"
    using h3 h9 by (intro exI [of _ T] exI [of _ M0] conjI)
  from part1 part2 show ?thesis by (rule conjI)
qed

lemma started_facts:
  "\<exists>bk. banks (started d H) 0 = Some bk
     \<and> businesses (objectData bk) = businesses d
     \<and> managerButtons bk = map_of (rev (zip (map business_name (businesses d))
                                (button_refs 2 (length (businesses d)))))
     \<and> (\<forall>b\<in>set (businesses d). \<exists>m. managerButtons bk (business_name b) = Some m
            \<and> objs (started d H) m = Some (constructed m))
     \<and> inj_on (managerButtons bk) (business_name ` set (businesses d))"
  "getDisplayComponent 0 ''balanceText'' (started d H) = Some 1"
  "objs (started d H) 1 = Some (balanceText_object 1)"
  "2 \<le> r \<and> r < 2 + 4 * length (businesses d) \<longrightarrow> objs (started d H) r = Some (constructed r)"
  "innerHeight (started d H) = H"
  "map_option children (actors (started d H) 0) = Some (button_refs 2 (length (businesses d)))"
proof -
  define w0 where "w0 = empty_world\<lparr>innerHeight := H\<rparr>"
  have n: "next_ref w0 = 0" by (simp add: w0_def empty_world_def)
  have st: "started d H = snd (new_VentureBank d w0)" by (simp add: started_def w0_def)
  have two: "(0::nat) + 2 = 2" by simp
  from new_VentureBank_ready [where d = d and w = w0, unfolded n, folded st]
  obtain bk where bk: "banks (started d H) 0 = Some bk" "objectData bk = d"
    "\<forall>b\<in>set (businesses d). \<exists>m. managerButtons bk (business_name b) = Some m
            \<and> objs (started d H) m = Some (constructed m)"
    "inj_on (managerButtons bk) (business_name ` set (businesses d))"
    and label: "getDisplayComponent 0 ''balanceText'' (started d H) = Some (0 + 1)"
    and obj: "objs (started d H) (0 + 1) = Some (balanceText_object (0 + 1))"
    by blast
  have "banks (started d H) 0 = Some ((initial_bank d)\<lparr>managerButtons :=
          map_of (rev (zip (map business_name (businesses d))
                        (button_refs 2 (length (businesses d)))))\<rparr>)"
    using new_VentureBank_bank [where d = d and w = w0, unfolded n two, folded st] .
  then have mb: "managerButtons bk = map_of (rev (zip (map business_name (businesses d))
                                (button_refs 2 (length (businesses d)))))"
    using bk(1) by simp
  show "\<exists>bk. banks (started d H) 0 = Some bk
     \<and> businesses (objectData bk) = businesses d
     \<and> managerButtons bk = map_of (rev (zip (map business_name (businesses d))
                                (button_refs 2 (length (businesses d)))))
     \<and> (\<forall>b\<in>set (businesses d). \<exists>m. managerButtons bk (business_name b) = Some m
            \<and> objs (started d H) m = Some (constructed m))
     \<and> inj_on (managerButtons bk) (business_name ` set (businesses d))"
    using bk mb by (intro exI [of _ bk] conjI) simp_all
  show "getDisplayComponent 0 ''balanceText'' (started d H) = Some 1"
    using label by simp
  show "objs (started d H) 1 = Some (balanceText_object 1)"
    using obj by simp
  show "2 \<le> r \<and> r < 2 + 4 * length (businesses d) \<longrightarrow> objs (started d H) r = Some (constructed r)"
    using new_VentureBank_objs [where d = d and w = w0 and r = r, unfolded n two, folded st]
    by simp
  show "innerHeight (started d H) = H"
    by (simp add: st new_VentureBank_innerHeight w0_def)
  show "map_option children (actors (started d H) 0) = Some (button_refs 2 (length (businesses d)))"
    using new_VentureBank_actor [where d = d and w = w0, unfolded n two, folded st] by simp
qed

lemma started_load:
  fixes d :: bank_data and H :: jsnum
  assumes ne: "businesses d \<noteq> []"
  defines "bs \<equiv> businesses d"
  defines "mb \<equiv> map_of (rev (zip (map business_name bs) (button_refs 2 (length bs))))"
  defines "start \<equiv> js_add (Num 0) (Num 80)"
  defines "slot \<equiv> js_div (js_sub H start) (Num (real (length bs)))"
  defines "res \<equiv> load measure_heights 0 (started d H)"
  shows "\<forall>i<length bs. business_name (bs ! i) \<notin> business_name ` set (drop (Suc i) bs) \<longrightarrow>
           (\<exists>m. mb (business_name (bs ! i)) = Some m
              \<and> placement res m = Some (((\<lambda>y. js_add y slot) ^^ i) start,
                                        js_div slot (Num 200), js_div slot (Num 200)))"
    and "\<forall>r. 2 \<le> r \<and> r < 2 + 4 * length bs \<and> Some r \<notin> mb ` business_name ` set bs \<longrightarrow>
           placement res r = Some (Num 0, Num 1, Num 1)"
proof -
  define W where "W = started d H"
  from started_facts(1) [of d H] obtain bk where bank: "banks W 0 = Some bk"
    and bsk: "businesses (objectData bk) = bs"
    and mbk: "managerButtons bk = mb"
    and entries: "\<forall>b\<in>set bs. \<exists>m. managerButtons bk (business_name b) = Some m
                    \<and> objs W m = Some (constructed m)"
    and inj: "inj_on (managerButtons bk) (business_name ` set bs)"
    unfolding W_def bs_def mb_def by blast
  have lab: "getDisplayComponent 0 ''balanceText'' W = Some 1"
    unfolding W_def by (rule started_facts(2))
  have o1: "objs W 1 = Some (balanceText_object 1)"
    unfolding W_def by (rule started_facts(3))
  define T where "T = (balanceText_object 1)\<lparr>container :=
      (container (balanceText_object 1))\<lparr>pixi_height := Num 80\<rparr>\<rparr>"
  have h1: "banks (measure_heights 0 W) 0 = Some bk" using bank by simp
  have h2: "getDisplayComponent 0 ''balanceText'' (measure_heights 0 W) = Some 1"
    by (simp add: lab)
  have h3: "objs (measure_heights 0 W) 1 = Some T"
    using measure_heights_objs [OF o1, of 0] by (simp add: lab T_def)
  have h4: "vec_y (position (transform T)) = Num 0" and h5: "pixi_height (container T) = Num 80"
    by (simp_all add: T_def balanceText_object_def assign_def constructed_def Transform_new_def)
  have h6: "innerHeight (measure_heights 0 W) = H"
    by (simp add: W_def started_facts(5))
  have neb: "bs \<noteq> []" using ne by (simp add: bs_def)
  have button: "\<And>m. objs W m = Some (constructed m) \<Longrightarrow>
      objs (measure_heights 0 W) m =
        Some ((constructed m)\<lparr>container := (container (constructed m))\<lparr>pixi_height := Num 200\<rparr>\<rparr>)"
  proof -
    fix m
    assume c: "objs W m = Some (constructed m)"
    have "m \<noteq> 1"
    proof
      assume "m = 1"
      with c o1 have "constructed 1 = balanceText_object 1" by simp
      then have "container (constructed 1) = container (balanceText_object 1)" by simp
      then show False by (simp add: constructed_def balanceText_object_def PIXI_Container_def)
    qed
    then show "objs (measure_heights 0 W) m =
        Some ((constructed m)\<lparr>container := (container (constructed m))\<lparr>pixi_height := Num 200\<rparr>\<rparr>)"
      using measure_heights_objs [OF c, of 0] by (simp add: lab)
  qed
  have h7: "\<forall>b\<in>set bs. \<exists>m. managerButtons bk (business_name b) = Some m
       \<and> objs (measure_heights 0 W) m \<noteq> None"
  proof
    fix b assume "b \<in> set bs"
    with entries obtain m where m: "managerButtons bk (business_name b) = Some m"
      and c: "objs W m = Some (constructed m)" by blast
    show "\<exists>m. managerButtons bk (business_name b) = Some m
       \<and> objs (measure_heights 0 W) m \<noteq> None"
      using m button [OF c] by (intro exI [of _ m]) simp
  qed
  have "hd bs \<in> set bs" using neb by simp
  with entries obtain m0 where m0: "managerButtons bk (business_name (hd bs)) = Some m0"
    and c0: "objs W m0 = Some (constructed m0)" by blast
  define M0 where "M0 = (constructed m0)\<lparr>container :=
      (container (constructed m0))\<lparr>pixi_height := Num 200\<rparr>\<rparr>"
  have h9: "objs (measure_heights 0 W) m0 = Some M0"
    unfolding M0_def by (rule button [OF c0])
  have h10: "pixi_height (container M0) = Num 200" by (simp add: M0_def)
  note Lay = load_layout [of measure_heights 0 W, OF h1 h2 h3 bsk neb h7 inj m0 h9,
      unfolded h4 h5 h6 h10, folded start_def, folded slot_def]
  from Lay obtain w' where ok: "load measure_heights 0 W = Inr w'"
    and pos: "\<forall>i<length bs. business_name (bs ! i) \<notin> business_name ` set (drop (Suc i) bs) \<longrightarrow>
          (\<exists>m M. managerButtons bk (business_name (bs ! i)) = Some m \<and> objs w' m = Some M
             \<and> vec_y (position (transform M)) = ((\<lambda>y. js_add y slot) ^^ i) start
             \<and> vec_x (scale (transform M)) = js_div slot (Num 200)
             \<and> vec_y (scale (transform M)) = js_div slot (Num 200))"
    and fr: "\<forall>r. Some r \<notin> (\<lambda>b. managerButtons bk (business_name b)) ` set bs \<longrightarrow>
            map_option transform (objs w' r) = map_option transform (objs (measure_heights 0 W) r)"
    by blast
  have res: "res = Inr w'" using ok by (simp add: res_def W_def)
  show "\<forall>i<length bs. business_name (bs ! i) \<notin> business_name ` set (drop (Suc i) bs) \<longrightarrow>
           (\<exists>m. mb (business_name (bs ! i)) = Some m
              \<and> placement res m = Some (((\<lambda>y. js_add y slot) ^^ i) start,
                                        js_div slot (Num 200), js_div slot (Num 200)))"
  proof (intro allI impI)
    fix i
    assume i: "i < length bs"
      and last: "business_name (bs ! i) \<notin> business_name ` set (drop (Suc i) bs)"
    from pos i last obtain m M where m: "managerButtons bk (business_name (bs ! i)) = Some m"
      and M: "objs w' m = Some M"
      and v: "vec_y (position (transform M)) = ((\<lambda>y. js_add y slot) ^^ i) start"
        "vec_x (scale (transform M)) = js_div slot (Num 200)"
        "vec_y (scale (transform M)) = js_div slot (Num 200)"
      by blast
    have "placement res m = Some (((\<lambda>y. js_add y slot) ^^ i) start,
                                        js_div slot (Num 200), js_div slot (Num 200))"
      unfolding res placement_def using M v by simp
    then show "\<exists>m. mb (business_name (bs ! i)) = Some m
              \<and> placement res m = Some (((\<lambda>y. js_add y slot) ^^ i) start,
                                        js_div slot (Num 200), js_div slot (Num 200))"
      using m unfolding mbk by (intro exI [of _ m] conjI)
  qed
  show "\<forall>r. 2 \<le> r \<and> r < 2 + 4 * length bs \<and> Some r \<notin> mb ` business_name ` set bs \<longrightarrow>
           placement res r = Some (Num 0, Num 1, Num 1)"
  proof (intro allI impI)
    fix r
    assume r: "2 \<le> r \<and> r < 2 + 4 * length bs \<and> Some r \<notin> mb ` business_name ` set bs"
    have c: "objs W r = Some (constructed r)"
      using started_facts(4) [of r d H] r by (simp add: W_def bs_def)
    have "Some r \<notin> (\<lambda>b. managerButtons bk (business_name b)) ` set bs"
      using r unfolding mbk by auto
    with fr have "map_option transform (objs w' r)
        = map_option transform (objs (measure_heights 0 W) r)"
      by blast
    also have "\<dots> = Some (transform (constructed r))" by (simp add: button [OF c])
    finally obtain M where M: "objs w' r = Some M" "transform M = transform (constructed r)"
      by auto
    show "placement res r = Some (Num 0, Num 1, Num 1)"
      unfolding res placement_def using M by (simp add: constructed_def Transform_new_def)
  qed
qed

lemma funpow_js_add_unfold:
  "((\<lambda>y. js_add y h) ^^ 0) s = s"
  "((\<lambda>y. js_add y h) ^^ 1) s = js_add s h"
  "((\<lambda>y. js_add y h) ^^ 2) s = js_add (js_add s h) h"
  by (simp_all add: numeral_2_eq_2)

text \<open>
  The doubles that \<open>load\<close> computes in a window of height 380 (room 300, slot 100 for
  three businesses) and in a window of height 700 (room 620, slot 620 / 3, which is not a
  double and is rounded).
\<close>

lemma double_values:
  "js_add (Num 0) (Num 80) = Num 80"
  "js_div (js_sub (Num 380) (Num 80)) (Num 3) = Num 100"
  "js_div (Num 100) (Num 200) = Num (1 / 2)"
  "js_add (Num 80) (Num 100) = Num 180"
  "js_add (Num 180) (Num 100) = Num 280"
  "js_div (js_sub (Num 700) (Num 80)) (Num 3) = Num (7271436898358613 / 35184372088832)"
  "js_div (Num (7271436898358613 / 35184372088832)) (Num 200)
     = Num (581714951868689 / 562949953421312)"
  "js_add (Num 80) (Num (7271436898358613 / 35184372088832))
     = Num (2521546666366293 / 8796093022208)"
  "js_add (Num (2521546666366293 / 8796093022208)) (Num (7271436898358613 / 35184372088832))
     = Num (2169702945477973 / 4398046511104)"
  "js_add (Num 80) (js_add (js_div (Num 620) (Num 3)) (js_div (Num 620) (Num 3)))
     = Num (8678811781911893 / 17592186044416)"
  by code_simp+

lemma duplicate_layout:
  "map (placement (load measure_heights 0 (started duplicate_data (Num 380)))) [2, 6, 10]
     = [Some (Num 0, Num 1, Num 1), Some (Num 180, Num (1 / 2), Num (1 / 2)),
        Some (Num 280, Num (1 / 2), Num (1 / 2))]"
proof -
  define bs where "bs = businesses duplicate_data"
  define mb where "mb = map_of (rev (zip (map business_name bs) (button_refs 2 (length bs))))"
  define res where "res = load measure_heights 0 (started duplicate_data (Num 380))"
  have ne: "businesses duplicate_data \<noteq> []" by (simp add: duplicate_data_def)
  have len: "length bs = 3" by (simp add: bs_def duplicate_data_def)
  have lenr: "real (length bs) = 3" by (simp add: len)
  have refs: "button_refs 2 3 = [2, 6, 10]" by (simp add: button_refs_def upt_rec)
  note A = started_load [OF ne, of "Num 380", folded bs_def, folded mb_def, folded res_def,
      unfolded lenr double_values]
  have i1: "1 < length bs" and i2: "2 < length bs" by (simp_all add: len)
  have l1: "business_name (bs ! 1) \<notin> business_name ` set (drop (Suc 1) bs)"
    and l2: "business_name (bs ! 2) \<notin> business_name ` set (drop (Suc 2) bs)"
    by (simp_all add: bs_def duplicate_data_def)
  have n1: "mb (business_name (bs ! 1)) = Some 6" and n2: "mb (business_name (bs ! 2)) = Some 10"
    by (simp_all add: mb_def len refs) (simp_all add: bs_def duplicate_data_def)
  have r0: "2 \<le> (2::nat) \<and> (2::nat) < 2 + 4 * length bs
      \<and> Some 2 \<notin> mb ` business_name ` set bs"
    by (simp add: mb_def len refs) (simp add: bs_def duplicate_data_def)
  have p0: "placement res 2 = Some (Num 0, Num 1, Num 1)"
    using A(2) [rule_format, OF r0] .
  from A(1) [rule_format, OF i1 l1] n1
  have p1: "placement res 6 = Some (Num 180, Num (1 / 2), Num (1 / 2))"
    by (simp add: funpow_js_add_unfold double_values del: js_add.simps js_div.simps)
  from A(1) [rule_format, OF i2 l2] n2
  have p2: "placement res 10 = Some (Num 280, Num (1 / 2), Num (1 / 2))"
    by (simp add: funpow_js_add_unfold double_values del: js_add.simps js_div.simps)
  show ?thesis unfolding res_def [symmetric] by (simp only: list.map p0 p1 p2)
qed

lemma rounded_layout:
  "map (placement (load measure_heights 0 (started example_data (Num 700)))) [2, 6, 10]
     = [Some (Num 80, Num (581714951868689 / 562949953421312),
              Num (581714951868689 / 562949953421312)),
        Some (Num (2521546666366293 / 8796093022208), Num (581714951868689 / 562949953421312),
              Num (581714951868689 / 562949953421312)),
        Some (Num (2169702945477973 / 4398046511104), Num (581714951868689 / 562949953421312),
              Num (581714951868689 / 562949953421312))]"
proof -
  define bs where "bs = businesses example_data"
  define mb where "mb = map_of (rev (zip (map business_name bs) (button_refs 2 (length bs))))"
  define res where "res = load measure_heights 0 (started example_data (Num 700))"
  have ne: "businesses example_data \<noteq> []"
    by (simp add: example_data_def scenario_businesses_def)
  have len: "length bs = 3" by (simp add: bs_def example_data_def scenario_businesses_def)
  have lenr: "real (length bs) = 3" by (simp add: len)
  have refs: "button_refs 2 3 = [2, 6, 10]" by (simp add: button_refs_def upt_rec)
  note A = started_load [OF ne, of "Num 700", folded bs_def, folded mb_def, folded res_def,
      unfolded lenr double_values]
  have i0: "0 < length bs" and i1: "1 < length bs" and i2: "2 < length bs"
    by (simp_all add: len)
  have l0: "business_name (bs ! 0) \<notin> business_name ` set (drop (Suc 0) bs)"
    and l1: "business_name (bs ! 1) \<notin> business_name ` set (drop (Suc 1) bs)"
    and l2: "business_name (bs ! 2) \<notin> business_name ` set (drop (Suc 2) bs)"
    by (simp_all add: bs_def example_data_def scenario_businesses_def)
  have n0: "mb (business_name (bs ! 0)) = Some 2" and n1: "mb (business_name (bs ! 1)) = Some 6"
    and n2: "mb (business_name (bs ! 2)) = Some 10"
    by (simp_all add: mb_def len refs) (simp_all add: bs_def example_data_def scenario_businesses_def)
  from A(1) [rule_format, OF i0 l0] n0
  have p0: "placement res 2 = Some (Num 80, Num (581714951868689 / 562949953421312),
              Num (581714951868689 / 562949953421312))"
    by (simp add: funpow_js_add_unfold double_values del: js_add.simps js_div.simps)
  from A(1) [rule_format, OF i1 l1] n1
  have p1: "placement res 6 = Some (Num (2521546666366293 / 8796093022208),
              Num (581714951868689 / 562949953421312), Num (581714951868689 / 562949953421312))"
    by (simp add: funpow_js_add_unfold double_values del: js_add.simps js_div.simps)
  from A(1) [rule_format, OF i2 l2] n2
  have p2: "placement res 10 = Some (Num (2169702945477973 / 4398046511104),
              Num (581714951868689 / 562949953421312), Num (581714951868689 / 562949953421312))"
    by (simp add: funpow_js_add_unfold double_values del: js_add.simps js_div.simps)
  show ?thesis unfolding res_def [symmetric] by (simp only: list.map p0 p1 p2)
qed

text \<open>
  The layout as the spec states it (every button scaled, the buttons at startingHeight +
  i * slot by exact division) is not what \<open>load\<close> does. First, with the
  businesses Lemonade, News, Lemonade in a window of height 380 (text height 80, button
  height 200: room 300, slot 100, scale factor 1/2) the bank has the three buttons 2, 6
  and 10 as children, but \<open>managerButtons\<close> holds the last button that was stored under
  a name: the button of the first business is neither scaled nor placed (it stays at
  y = 0 with scale 1, where the claim puts it at y = 80 with scale 1/2), and no button is
  at the top offset 80. Second, with the three businesses of the scenario in a window of
  height 700 the slot 620 / 3 is not a double; the third button is put at
  (80 + slot) + slot in double arithmetic, which is 493.33333333333326, neither the
  double 80 + 2 * slot = 493.3333333333333 nor the real number 80 + 2 * (620 / 3).
\<close>

theorem load_lays_out_buttons_counterexample:
  "map (placement (load measure_heights 0 (started duplicate_data (Num 380)))) [2, 6, 10]
     = [Some (Num 0, Num 1, Num 1), Some (Num 180, Num (1 / 2), Num (1 / 2)),
        Some (Num 280, Num (1 / 2), Num (1 / 2))]
   \<and> map_option children (actors (started duplicate_data (Num 380)) 0) = Some [2, 6, 10]
   \<and> map (placement (load measure_heights 0 (started example_data (Num 700)))) [2, 6, 10]
     = [Some (Num 80, Num (581714951868689 / 562949953421312),
              Num (581714951868689 / 562949953421312)),
        Some (Num (2521546666366293 / 8796093022208), Num (581714951868689 / 562949953421312),
              Num (581714951868689 / 562949953421312)),
        Some (Num (2169702945477973 / 4398046511104), Num (581714951868689 / 562949953421312),
              Num (581714951868689 / 562949953421312))]
   \<and> Num (2169702945477973 / 4398046511104)
       \<noteq> js_add (Num 80) (js_add (js_div (Num 620) (Num 3)) (js_div (Num 620) (Num 3)))
   \<and> (2169702945477973 / 4398046511104 :: real) \<noteq> 80 + 2 * ((700 - 80) / 3)"
proof (intro conjI)
  show "map (placement (load measure_heights 0 (started duplicate_data (Num 380)))) [2, 6, 10]
     = [Some (Num 0, Num 1, Num 1), Some (Num 180, Num (1 / 2), Num (1 / 2)),
        Some (Num 280, Num (1 / 2), Num (1 / 2))]"
    by (rule duplicate_layout)
  have "button_refs 2 (length (businesses duplicate_data)) = [2, 6, 10]"
    by (simp add: duplicate_data_def button_refs_def upt_rec)
  then show "map_option children (actors (started duplicate_data (Num 380)) 0) = Some [2, 6, 10]"
    using started_facts(6) [of duplicate_data "Num 380"] by simp
  show "map (placement (load measure_heights 0 (started example_data (Num 700)))) [2, 6, 10]
     = [Some (Num 80, Num (581714951868689 / 562949953421312),
              Num (581714951868689 / 562949953421312)),
        Some (Num (2521546666366293 / 8796093022208), Num (581714951868689 / 562949953421312),
              Num (581714951868689 / 562949953421312)),
        Some (Num (2169702945477973 / 4398046511104), Num (581714951868689 / 562949953421312),
              Num (581714951868689 / 562949953421312))]"
    by (rule rounded_layout)
  show "Num (2169702945477973 / 4398046511104)
       \<noteq> js_add (Num 80) (js_add (js_div (Num 620) (Num 3)) (js_div (Num 620) (Num 3)))"
    unfolding double_values(10) by simp
  show "(2169702945477973 / 4398046511104 :: real) \<noteq> 80 + 2 * ((700 - 80) / 3)"
    by simp
qed

lemma js_div_zero: "js_div x (Num 0) \<notin> range Num"
  by (cases x) auto

text \<open>
  Claim C9. \<open>load()\<close> checks nothing. With a non-empty businesses array, each business
  having a manager button entry (and the balance text registered, as the constructor
  leaves it), every lookup succeeds, \<open>load()\<close> returns normally, and the division by
  \<open>businesses.length\<close> is an ordinary division (of a finite available room it gives the
  quotient, rounded to a double). With an empty businesses array
  \<open>load()\<close> fails with a TypeError at \<open>businesses[0].name\<close>, and the division by
  \<open>businesses.length\<close> before it yields no finite number.
\<close>

theorem load_accesses:
  "(banks (Actor_load this w) this = Some bk
      \<and> getDisplayComponent this ''balanceText'' (Actor_load this w) = Some t
      \<and> objs (Actor_load this w) t \<noteq> None
      \<and> businesses (objectData bk) \<noteq> []
      \<and> (\<forall>b\<in>set (businesses (objectData bk)).
            \<exists>m. managerButtons bk (business_name b) = Some m \<and> objs (Actor_load this w) m \<noteq> None)
    \<longrightarrow> (\<exists>w'. load Actor_load this w = Inr w')
        \<and> (\<forall>availableRoom.
              js_div (Num availableRoom) (Num (real (length (businesses (objectData bk)))))
                = round_double (availableRoom / real (length (businesses (objectData bk))))))
   \<and> (banks (Actor_load this w) this = Some bk \<and> businesses (objectData bk) = []
    \<longrightarrow> load Actor_load this w = Inl TypeError
        \<and> (\<forall>availableRoom.
              js_div availableRoom (Num (real (length (businesses (objectData bk)))))
                \<notin> range Num))"
proof (intro conjI impI)
  assume a: "banks (Actor_load this w) this = Some bk
      \<and> getDisplayComponent this ''balanceText'' (Actor_load this w) = Some t
      \<and> objs (Actor_load this w) t \<noteq> None
      \<and> businesses (objectData bk) \<noteq> []
      \<and> (\<forall>b\<in>set (businesses (objectData bk)).
            \<exists>m. managerButtons bk (business_name b) = Some m \<and> objs (Actor_load this w) m \<noteq> None)"
  then obtain T where T: "objs (Actor_load this w) t = Some T" by auto
  from a obtain b0 rest where br: "businesses (objectData bk) = b0 # rest"
    by (cases "businesses (objectData bk)") auto
  from a br obtain m0 M0 where m0: "managerButtons bk (business_name b0) = Some m0"
    and M0: "objs (Actor_load this w) m0 = Some M0"
    by auto
  have bank: "banks (Actor_load this w) this = Some bk" using a by simp
  have label: "getDisplayComponent this ''balanceText'' (Actor_load this w) = Some t" using a by simp
  have all: "\<forall>b\<in>set (b0 # rest). managerButtons bk (business_name b) \<noteq> None"
    using a br by auto
  show "\<exists>w'. load Actor_load this w = Inr w'"
    unfolding load_eq [of Actor_load this w, OF bank label T br m0 M0]
    using layout_frame [of "Actor_load this w", OF bank all] by blast
next
  assume "banks (Actor_load this w) this = Some bk
      \<and> getDisplayComponent this ''balanceText'' (Actor_load this w) = Some t
      \<and> objs (Actor_load this w) t \<noteq> None
      \<and> businesses (objectData bk) \<noteq> []
      \<and> (\<forall>b\<in>set (businesses (objectData bk)).
            \<exists>m. managerButtons bk (business_name b) = Some m \<and> objs (Actor_load this w) m \<noteq> None)"
  then have "real (length (businesses (objectData bk))) \<noteq> 0" by simp
  then show "\<forall>availableRoom.
      js_div (Num availableRoom) (Num (real (length (businesses (objectData bk)))))
        = round_double (availableRoom / real (length (businesses (objectData bk))))"
    by simp
next
  assume "banks (Actor_load this w) this = Some bk \<and> businesses (objectData bk) = []"
  then show "load Actor_load this w = Inl TypeError"
    by (simp add: load_def Let_def split: option.splits)
next
  assume "banks (Actor_load this w) this = Some bk \<and> businesses (objectData bk) = []"
  then show "\<forall>availableRoom.
      js_div availableRoom (Num (real (length (businesses (objectData bk))))) \<notin> range Num"
    using js_div_zero by simp
qed

theorem load_accesses_witness:
  "(\<exists>w'. load measure_heights 0 scenario_start = Inr w')
   \<and> load measure_heights 0 (snd (new_VentureBank empty_data empty_world)) = Inl TypeError
   \<and> js_div (Num 600) (Num (real (length (businesses empty_data)))) = PosInf"
proof -
  from scenario_start_facts(1) obtain bk where bank: "banks scenario_start 0 = Some bk"
    and bs: "businesses (objectData bk) = scenario_businesses"
    and entries: "\<forall>b\<in>set scenario_businesses. \<exists>m. managerButtons bk (business_name b) = Some m
            \<and> objs scenario_start m = Some (constructed m)"
    by blast
  have h1: "banks (measure_heights 0 scenario_start) 0 = Some bk" using bank by simp
  have h2: "getDisplayComponent 0 ''balanceText'' (measure_heights 0 scenario_start) = Some 1"
    by (simp add: scenario_start_facts(2))
  have h3: "objs (measure_heights 0 scenario_start) 1 \<noteq> None"
    using measure_heights_objs [OF scenario_start_facts(3), of 0] by simp
  have h4: "businesses (objectData bk) \<noteq> []"
    by (simp add: bs scenario_businesses_def)
  have h5: "\<forall>b\<in>set (businesses (objectData bk)).
       \<exists>m. managerButtons bk (business_name b) = Some m
         \<and> objs (measure_heights 0 scenario_start) m \<noteq> None"
    unfolding bs
  proof
    fix b assume "b \<in> set scenario_businesses"
    with entries obtain m where "managerButtons bk (business_name b) = Some m"
      "objs scenario_start m = Some (constructed m)" by blast
    then show "\<exists>m. managerButtons bk (business_name b) = Some m
       \<and> objs (measure_heights 0 scenario_start) m \<noteq> None"
      by (auto simp add: measure_heights_objs)
  qed
  from load_accesses
         [where Actor_load = measure_heights and this = 0 and w = scenario_start
            and bk = bk and t = 1,
          THEN conjunct1, rule_format, OF conjI, OF h1 conjI, OF h2 conjI, OF h3 conjI, OF h4 h5]
  have ok: "\<exists>w'. load measure_heights 0 scenario_start = Inr w'" by blast
  define w0 where "w0 = snd (new_VentureBank empty_data empty_world)"
  have n: "next_ref empty_world = 0" by (simp add: empty_world_def)
  from new_VentureBank_ready [where d = empty_data and w = empty_world, unfolded n]
  obtain bk0 where bk0: "banks w0 0 = Some bk0" "objectData bk0 = empty_data"
    unfolding w0_def by blast
  have e1: "banks (measure_heights 0 w0) 0 = Some bk0" using bk0(1) by simp
  have e2: "businesses (objectData bk0) = []" by (simp add: bk0(2) empty_data_def)
  from load_accesses
         [where Actor_load = measure_heights and this = 0 and w = w0 and bk = bk0,
          THEN conjunct2, rule_format, OF conjI, OF e1 e2]
  have err: "load measure_heights 0 w0 = Inl TypeError" by blast
  show ?thesis using ok err unfolding w0_def by (simp add: empty_data_def)
qed

end
